theory Spec2Isabelle
  imports Complex_Main "HOL-Library.Word"
begin

unbundle bit_operations_syntax

section \<open>Python values\<close>

text \<open>
  A Python \<open>bytes\<close> object is a sequence of 8-bit values; Python integers are unbounded.
  \<open>time.time()\<close> readings are carried as opaque reals.
\<close>

type_synonym byte = "8 word"

datatype py_error = IndexError | ValueError | ISOTPFrameError

text \<open>
  What a call does: it returns a value, raises an exception, or never comes back because it
  waits on a full \<open>queue.Queue\<close> (\<open>put\<close> without a timeout) that nobody drains.
\<close>

datatype 'a outcome = Returns 'a | Raises py_error | Blocks

definition bind_e :: "py_error + 'a \<Rightarrow> ('a \<Rightarrow> py_error + 'b) \<Rightarrow> py_error + 'b" where
  "bind_e m f = (case m of Inl e \<Rightarrow> Inl e | Inr x \<Rightarrow> f x)"

text \<open>\<open>xs[i]\<close> for a non-negative index: IndexError past the end.\<close>

definition byte_at :: "byte list \<Rightarrow> nat \<Rightarrow> py_error + int" where
  "byte_at xs i = (if i < length xs then Inr (uint (xs ! i)) else Inl IndexError)"

text \<open>\<open>xs[a:b]\<close>: negative bounds count from the end, and every bound is clipped.\<close>

definition slice_bound :: "nat \<Rightarrow> int \<Rightarrow> nat" where
  "slice_bound n i = (if i < 0 then nat (max 0 (int n + i)) else min n (nat i))"

definition py_slice :: "'a list \<Rightarrow> int \<Rightarrow> int \<Rightarrow> 'a list" where
  "py_slice xs a b =
     (let s = slice_bound (length xs) a; e = slice_bound (length xs) b
      in take (e - s) (drop s xs))"

text \<open>\<open>bytes([...])\<close> of integers: ValueError unless every one is in \<open>range(256)\<close>.\<close>

definition bytes_of :: "int list \<Rightarrow> py_error + byte list" where
  "bytes_of xs =
     (if \<forall>x \<in> set xs. 0 \<le> x \<and> x < 256 then Inr (map word_of_int xs) else Inl ValueError)"

section \<open>CAN frames (core/can\_interface.py)\<close>

record CANFrame =
  timestamp :: real
  arbitration_id :: int
  can_data :: "byte list"
  is_extended_id :: bool
  is_remote_frame :: bool
  is_error_frame :: bool
  is_fd :: bool
  bitrate_switch :: bool
  error_state_indicator :: bool
  channel :: int
  dlc :: int

text \<open>\<open>CANFrame.__post_init__\<close>: a DLC of 0 is replaced by the length of the data.\<close>

definition post_init :: "CANFrame \<Rightarrow> CANFrame" where
  "post_init f = (if dlc f = 0 then f\<lparr>dlc := int (length (can_data f))\<rparr> else f)"

text \<open>
  The dataclass constructor with every field given: the generated \<open>__init__\<close> stores the
  fields and then runs \<open>__post_init__\<close>.
\<close>

definition mk_CANFrame ::
  "real \<Rightarrow> int \<Rightarrow> byte list \<Rightarrow> bool \<Rightarrow> bool \<Rightarrow> bool \<Rightarrow> bool \<Rightarrow> bool \<Rightarrow> bool \<Rightarrow> int \<Rightarrow> int \<Rightarrow> CANFrame"
where
  "mk_CANFrame ts aid d ext rtr err fd brs esi ch dl =
     post_init \<lparr>timestamp = ts, arbitration_id = aid, can_data = d, is_extended_id = ext,
                is_remote_frame = rtr, is_error_frame = err, is_fd = fd, bitrate_switch = brs,
                error_state_indicator = esi, channel = ch, dlc = dl\<rparr>"

section \<open>ISO-TP frames (isotp\_protocol.py)\<close>

datatype ISOTPFrameType = SINGLE_FRAME | FIRST_FRAME | CONSECUTIVE_FRAME | FLOW_CONTROL_FRAME

datatype ISOTPFlowStatus = CONTINUE | WAIT | OVERFLOW

text \<open>The integer values of the two \<open>IntEnum\<close>s.\<close>

fun frame_type_value :: "ISOTPFrameType \<Rightarrow> int" where
  "frame_type_value SINGLE_FRAME = 0"
| "frame_type_value FIRST_FRAME = 1"
| "frame_type_value CONSECUTIVE_FRAME = 2"
| "frame_type_value FLOW_CONTROL_FRAME = 3"

fun flow_status_value :: "ISOTPFlowStatus \<Rightarrow> int" where
  "flow_status_value CONTINUE = 0"
| "flow_status_value WAIT = 1"
| "flow_status_value OVERFLOW = 2"

text \<open>\<open>ISOTPFlowStatus(v)\<close>: ValueError for a value that is no member.\<close>

definition ISOTPFlowStatus_of :: "int \<Rightarrow> py_error + ISOTPFlowStatus" where
  "ISOTPFlowStatus_of v =
     (if v = 0 then Inr CONTINUE else if v = 1 then Inr WAIT
      else if v = 2 then Inr OVERFLOW else Inl ValueError)"

record ISOTPFrame =
  frame_type :: ISOTPFrameType
  data :: "byte list"
  sequence_number :: int
  flow_status :: ISOTPFlowStatus
  block_size :: int
  st_min :: int

text \<open>The dataclass defaults: sequence number 0, CONTINUE, block size 0, STmin 0.\<close>

definition mk_ISOTPFrame :: "ISOTPFrameType \<Rightarrow> byte list \<Rightarrow> ISOTPFrame" where
  "mk_ISOTPFrame t d =
     \<lparr>frame_type = t, data = d, sequence_number = 0, flow_status = CONTINUE,
      block_size = 0, st_min = 0\<rparr>"

subsection \<open>decode\_frame\<close>

text \<open>
  The body of the \<open>try\<close> block of \<open>ISOTPProtocol.decode_frame\<close>. \<open>Inl\<close> is an exception
  raised inside it, \<open>Inr None\<close> an explicit \<open>return None\<close>.
\<close>

definition decode_frame_body :: "byte list \<Rightarrow> bool \<Rightarrow> py_error + ISOTPFrame option" where
  "decode_frame_body cd fd =
     (if cd = [] then Inr None
      else bind_e (byte_at cd 0) (\<lambda>pci_byte.
        let ftype = drop_bit 4 pci_byte AND 15; pci_low = pci_byte AND 15 in
        if ftype = frame_type_value SINGLE_FRAME then
          (if pci_low = 0 then
             (if length cd < 3 then Inr None
              else bind_e (byte_at cd 1) (\<lambda>b1. bind_e (byte_at cd 2) (\<lambda>b2.
                let data_length = push_bit 8 b1 OR b2 in
                Inr (Some (mk_ISOTPFrame SINGLE_FRAME (py_slice cd 3 (3 + data_length)))))))
           else Inr (Some (mk_ISOTPFrame SINGLE_FRAME (py_slice cd 1 (1 + pci_low)))))
        else if ftype = frame_type_value FIRST_FRAME then
          (if pci_low = 0 then
             (if length cd < 4 then Inr None
              else bind_e (byte_at cd 1) (\<lambda>b1. bind_e (byte_at cd 2) (\<lambda>b2.
                Inr (Some (mk_ISOTPFrame FIRST_FRAME (drop 3 cd))))))
           else bind_e (byte_at cd 1) (\<lambda>b1.
                Inr (Some (mk_ISOTPFrame FIRST_FRAME (drop 2 cd)))))
        else if ftype = frame_type_value CONSECUTIVE_FRAME then
          Inr (Some ((mk_ISOTPFrame CONSECUTIVE_FRAME (drop 1 cd))\<lparr>sequence_number := pci_low\<rparr>))
        else if ftype = frame_type_value FLOW_CONTROL_FRAME then
          (if length cd < 3 then Inr None
           else bind_e (ISOTPFlowStatus_of pci_low) (\<lambda>fs.
                bind_e (byte_at cd 1) (\<lambda>bs. bind_e (byte_at cd 2) (\<lambda>stm.
                Inr (Some ((mk_ISOTPFrame FLOW_CONTROL_FRAME [])
                             \<lparr>flow_status := fs, block_size := bs, st_min := stm\<rparr>))))))
        else Inr None))"

text \<open>\<open>decode_frame\<close>: \<open>except Exception\<close> logs and returns None.\<close>

definition decode_frame :: "byte list \<Rightarrow> bool \<Rightarrow> ISOTPFrame option" where
  "decode_frame cd fd = (case decode_frame_body cd fd of Inl e \<Rightarrow> None | Inr r \<Rightarrow> r)"

section \<open>The ISO-TP protocol handler (isotp\_protocol.py)\<close>

datatype ISOTPAddressingMode = NORMAL | EXTENDED | MIXED

datatype ISOTPState = IDLE | WAITING_FOR_FC | TRANSMITTING | RECEIVING | TIMEOUT | ERROR

text \<open>
  \<open>ISOTPConfig\<close>. Its fields \<open>frame_type\<close>, \<open>st_min\<close> and \<open>block_size\<close> carry the prefix
  \<open>cfg_\<close> here, since an ISO-TP frame has fields of the same names.
\<close>

record ISOTPConfig =
  rx_id :: int
  tx_id :: int
  addressing_mode :: ISOTPAddressingMode
  cfg_frame_type :: string
  cfg_st_min :: int
  cfg_block_size :: int
  separation_time :: int
  can_fd_enabled :: bool
  fd_baudrate_switch :: bool
  fd_bitrate_switch :: bool
  fd_dlc :: int
  p2_timeout :: int
  p2_extended :: int
  p4_timeout :: int
  max_frame_size :: int
  max_consecutive_frames :: int
  receive_timeout :: int
  tx_padding :: bool
  tx_padding_value :: int

definition default_config :: ISOTPConfig where
  "default_config =
     \<lparr>rx_id = 0x7E0, tx_id = 0x7E8, addressing_mode = NORMAL, cfg_frame_type = ''standard'',
      cfg_st_min = 0, cfg_block_size = 8, separation_time = 0, can_fd_enabled = False,
      fd_baudrate_switch = True, fd_bitrate_switch = True, fd_dlc = 64, p2_timeout = 50,
      p2_extended = 5000, p4_timeout = 5000, max_frame_size = 4095,
      max_consecutive_frames = 4096, receive_timeout = 1000, tx_padding = True,
      tx_padding_value = 0xCC\<rparr>"

text \<open>What the handler passes to its \<open>on_error\<close> callback.\<close>

datatype error_report = Flow_control_overflow | Frame_processing_error py_error

text \<open>
  The fields of \<open>ISOTPProtocol\<close>. A callback is modelled by whether one is installed and by
  the list of calls made to it (callbacks are taken not to raise). The timer thread is
  modelled by its flags and by the timeout it was started with, in seconds. The two queues
  are \<open>queue.Queue(maxsize=1000)\<close>.
\<close>

record ISOTPProtocol =
  config :: ISOTPConfig
  state :: ISOTPState
  tx_buffer :: "byte list"
  tx_sequence :: int
  tx_total_length :: int
  tx_remaining :: int
  tx_next_frame_index :: int
  tx_block_counter :: int
  tx_last_time :: real
  rx_buffer :: "byte list"
  rx_expected_length :: int
  rx_sequence :: int
  rx_next_sequence :: int
  rx_block_counter :: int
  rx_flow_status :: ISOTPFlowStatus
  rx_flow_st_min :: int
  rx_flow_block_size :: int
  rx_last_time :: real
  timer_start_time :: real
  timer_running :: bool
  timer_stop_event :: bool
  timer_timeout :: real
  on_transmission_complete :: bool
  complete_calls :: "(bool \<times> byte list) list"
  on_error :: bool
  error_calls :: "error_report list"
  rx_queue :: "byte list list"
  tx_queue :: "CANFrame list"

definition queue_maxsize :: nat where
  "queue_maxsize = 1000"

text \<open>\<open>ISOTPProtocol.__init__\<close>.\<close>

definition init_protocol :: "ISOTPConfig \<Rightarrow> ISOTPProtocol" where
  "init_protocol cfg =
     \<lparr>config = cfg, state = IDLE, tx_buffer = [], tx_sequence = 0, tx_total_length = 0,
      tx_remaining = 0, tx_next_frame_index = 0, tx_block_counter = 0, tx_last_time = 0,
      rx_buffer = [], rx_expected_length = 0, rx_sequence = 0, rx_next_sequence = 1,
      rx_block_counter = 0, rx_flow_status = CONTINUE, rx_flow_st_min = 0,
      rx_flow_block_size = 0, rx_last_time = 0, timer_start_time = 0, timer_running = False,
      timer_stop_event = False, timer_timeout = 0, on_transmission_complete = False,
      complete_calls = [], on_error = False, error_calls = [], rx_queue = [], tx_queue = []\<rparr>"

subsection \<open>Timer\<close>

definition stop_timer :: "ISOTPProtocol \<Rightarrow> ISOTPProtocol" where
  "stop_timer p = p\<lparr>timer_running := False, timer_stop_event := True\<rparr>"

definition start_timer :: "real \<Rightarrow> real \<Rightarrow> ISOTPProtocol \<Rightarrow> ISOTPProtocol" where
  "start_timer now timeout p =
     (let p1 = (if timer_running p then stop_timer p else p)
      in p1\<lparr>timer_start_time := now, timer_running := True, timer_stop_event := False,
            timer_timeout := timeout\<rparr>)"

subsection \<open>encode\_frame\<close>

definition standard_dlc_table :: "(int \<times> int) list" where
  "standard_dlc_table =
     [(0, 0), (1, 1), (2, 2), (3, 3), (4, 4), (5, 5), (6, 6), (7, 7), (8, 8)]"

definition fd_dlc_table :: "(int \<times> int) list" where
  "fd_dlc_table =
     [(0, 0), (1, 1), (2, 2), (3, 3), (4, 4), (5, 5), (6, 6), (7, 7), (8, 8),
      (9, 12), (10, 16), (11, 20), (12, 24), (13, 32), (14, 48), (15, 64)]"

text \<open>
  \<open>_calculate_dlc\<close>: the first entry, in the order of the table, whose length is large
  enough; the largest key when there is none (the keys are not negative).
\<close>

definition calculate_dlc :: "int \<Rightarrow> bool \<Rightarrow> (int \<times> int) list \<Rightarrow> int" where
  "calculate_dlc data_length fd dlc_table =
     (case find (\<lambda>(d, max_length). data_length \<le> max_length) dlc_table of
        Some (d, max_length) \<Rightarrow> d
      | None \<Rightarrow> foldr max (map fst dlc_table) 0)"

text \<open>The PCI and payload bytes of a frame, before padding.\<close>

definition encode_pci :: "ISOTPConfig \<Rightarrow> ISOTPFrame \<Rightarrow> bool \<Rightarrow> int \<Rightarrow> py_error + byte list" where
  "encode_pci cfg f fd max_payload =
     (case frame_type f of
        SINGLE_FRAME \<Rightarrow>
          (let data_length = int (length (data f)) in
           if data_length \<le> max_payload - 1 then
             bind_e (bytes_of [push_bit 4 (frame_type_value SINGLE_FRAME) OR data_length])
               (\<lambda>pci. Inr (pci @ data f))
           else if \<not> fd \<or> data_length > 4095 then Inl ISOTPFrameError
           else bind_e (bytes_of [push_bit 4 (frame_type_value SINGLE_FRAME) OR 0,
                                  drop_bit 8 data_length, data_length AND 255])
               (\<lambda>pci. Inr (pci @ data f)))
      | FIRST_FRAME \<Rightarrow>
          (let data_length = int (length (data f)) in
           if data_length > max_frame_size cfg then Inl ISOTPFrameError
           else if data_length \<le> 4095 then
             bind_e (bytes_of [push_bit 4 (frame_type_value FIRST_FRAME) OR drop_bit 8 data_length,
                               data_length AND 255])
               (\<lambda>pci. Inr (pci @ data f))
           else if \<not> fd then Inl ISOTPFrameError
           else bind_e (bytes_of [push_bit 4 (frame_type_value FIRST_FRAME) OR 0,
                                  drop_bit 8 data_length, data_length AND 255])
               (\<lambda>pci. Inr (pci @ data f)))
      | CONSECUTIVE_FRAME \<Rightarrow>
          (let sn = sequence_number f AND 15 in
           bind_e (bytes_of [push_bit 4 (frame_type_value CONSECUTIVE_FRAME) OR sn])
             (\<lambda>pci. Inr (pci @ data f)))
      | FLOW_CONTROL_FRAME \<Rightarrow>
          bytes_of [push_bit 4 (frame_type_value FLOW_CONTROL_FRAME)
                      OR flow_status_value (flow_status f), block_size f, st_min f])"

text \<open>
  \<open>encode_frame\<close>: PCI and payload, padding up to the frame capacity when \<open>tx_padding\<close> is
  set, and the DLC. An exception is logged and raised again.
\<close>

definition encode_frame :: "ISOTPConfig \<Rightarrow> ISOTPFrame \<Rightarrow> bool \<Rightarrow> py_error + (byte list \<times> int)" where
  "encode_frame cfg f fd =
     (let max_payload = (if fd then 64 else 8);
          dlc_table = (if fd then fd_dlc_table else standard_dlc_table)
      in bind_e (encode_pci cfg f fd max_payload) (\<lambda>frame_data.
         bind_e (if tx_padding cfg \<and> int (length frame_data) < max_payload
                 then bind_e (bytes_of (replicate (nat (max_payload - int (length frame_data)))
                                          (tx_padding_value cfg)))
                        (\<lambda>padding. Inr (frame_data @ padding))
                 else Inr frame_data) (\<lambda>frame_data.
         Inr (frame_data, calculate_dlc (int (length frame_data)) fd dlc_table))))"

subsection \<open>Sending\<close>

text \<open>The CAN frame that the \<open>_send_*\<close> methods build around encoded data.\<close>

definition tx_can_frame :: "real \<Rightarrow> ISOTPConfig \<Rightarrow> byte list \<Rightarrow> int \<Rightarrow> CANFrame" where
  "tx_can_frame now cfg frame_data dl =
     mk_CANFrame now (tx_id cfg) frame_data (cfg_frame_type cfg = ''extended'') False False
       (can_fd_enabled cfg) False False 0 dl"

text \<open>\<open>tx_queue.put(can_frame)\<close>: waits for ever on a full queue.\<close>

definition tx_put :: "CANFrame \<Rightarrow> ISOTPProtocol \<Rightarrow> ISOTPProtocol option" where
  "tx_put f p =
     (if length (tx_queue p) \<ge> queue_maxsize then None else Some (p\<lparr>tx_queue := tx_queue p @ [f]\<rparr>))"

definition call_complete :: "bool \<Rightarrow> byte list \<Rightarrow> ISOTPProtocol \<Rightarrow> ISOTPProtocol" where
  "call_complete ok d p =
     (if on_transmission_complete p then p\<lparr>complete_calls := complete_calls p @ [(ok, d)]\<rparr> else p)"

definition call_error :: "error_report \<Rightarrow> ISOTPProtocol \<Rightarrow> ISOTPProtocol" where
  "call_error r p = (if on_error p then p\<lparr>error_calls := error_calls p @ [r]\<rparr> else p)"

text \<open>\<open>_send_single_frame\<close>. The encoding is outside the \<open>try\<close>: its exception leaves the method.\<close>

definition send_single_frame :: "real \<Rightarrow> byte list \<Rightarrow> ISOTPProtocol \<Rightarrow> unit outcome \<times> ISOTPProtocol" where
  "send_single_frame now d p =
     (case encode_frame (config p) (mk_ISOTPFrame SINGLE_FRAME d) (can_fd_enabled (config p)) of
        Inl e \<Rightarrow> (Raises e, p)
      | Inr (frame_data, dl) \<Rightarrow>
          (case tx_put (tx_can_frame now (config p) frame_data dl) p of
             None \<Rightarrow> (Blocks, p)
           | Some p1 \<Rightarrow>
               (Returns (),
                call_complete True d
                  (stop_timer (p1\<lparr>state := IDLE, tx_buffer := [], tx_total_length := 0\<rparr>)))))"

text \<open>\<open>_send_first_frame\<close>.\<close>

definition send_first_frame :: "real \<Rightarrow> byte list \<Rightarrow> ISOTPProtocol \<Rightarrow> unit outcome \<times> ISOTPProtocol" where
  "send_first_frame now d p =
     (let max_payload = (if can_fd_enabled (config p) then 64 else 6);
          first_frame_data = py_slice d 0 max_payload
      in case encode_frame (config p) (mk_ISOTPFrame FIRST_FRAME first_frame_data)
                (can_fd_enabled (config p)) of
           Inl e \<Rightarrow> (Raises e, p)
         | Inr (frame_data, dl) \<Rightarrow>
             (case tx_put (tx_can_frame now (config p) frame_data dl) p of
                None \<Rightarrow> (Blocks, p)
              | Some p1 \<Rightarrow>
                  (Returns (),
                   p1\<lparr>tx_next_frame_index := int (length first_frame_data),
                      tx_remaining := tx_remaining p1 - int (length first_frame_data)\<rparr>)))"

text \<open>\<open>_send_consecutive_frame\<close>.\<close>

definition send_consecutive_frame :: "real \<Rightarrow> ISOTPProtocol \<Rightarrow> unit outcome \<times> ISOTPProtocol" where
  "send_consecutive_frame now p =
     (if tx_remaining p \<le> 0 then (Returns (), p)
      else
        let max_payload = (if can_fd_enabled (config p) then 64 else 7);
            start = tx_next_frame_index p;
            end = min (start + max_payload) (tx_total_length p);
            frame_data = py_slice (tx_buffer p) start end;
            isotp_frame = (mk_ISOTPFrame CONSECUTIVE_FRAME frame_data)
                            \<lparr>sequence_number := tx_sequence p\<rparr>
        in case encode_frame (config p) isotp_frame (can_fd_enabled (config p)) of
             Inl e \<Rightarrow> (Raises e, p)
           | Inr (can_frame_data, dl) \<Rightarrow>
               (case tx_put (tx_can_frame now (config p) can_frame_data dl) p of
                  None \<Rightarrow> (Blocks, p)
                | Some p1 \<Rightarrow>
                    let p2 = p1\<lparr>tx_next_frame_index := end,
                                tx_remaining := tx_remaining p1 - int (length frame_data),
                                tx_sequence := (tx_sequence p1 + 1) AND 15,
                                tx_block_counter := tx_block_counter p1 + 1,
                                tx_last_time := now\<rparr>
                    in if tx_remaining p2 \<le> 0
                       then (Returns (),
                             call_complete True []
                               (stop_timer (p2\<lparr>state := IDLE, tx_buffer := [],
                                               tx_total_length := 0\<rparr>)))
                       else (Returns (), p2)))"

text \<open>\<open>_send_flow_control_frame\<close>.\<close>

definition send_flow_control_frame ::
  "real \<Rightarrow> ISOTPFlowStatus \<Rightarrow> int \<Rightarrow> int \<Rightarrow> ISOTPProtocol \<Rightarrow> unit outcome \<times> ISOTPProtocol"
where
  "send_flow_control_frame now status bs stm p =
     (let isotp_frame = (mk_ISOTPFrame FLOW_CONTROL_FRAME [])
                          \<lparr>flow_status := status, block_size := bs, st_min := stm\<rparr>
      in case encode_frame (config p) isotp_frame (can_fd_enabled (config p)) of
           Inl e \<Rightarrow> (Raises e, p)
         | Inr (frame_data, dl) \<Rightarrow>
             (case tx_put (tx_can_frame now (config p) frame_data dl) p of
                None \<Rightarrow> (Blocks, p)
              | Some p1 \<Rightarrow> (Returns (), p1)))"

text \<open>
  \<open>send_data\<close>. \<open>callback\<close> says whether the caller passed one. Both refusals (handler
  not idle, data too long) return False and touch nothing.
\<close>

definition send_data :: "real \<Rightarrow> byte list \<Rightarrow> bool \<Rightarrow> ISOTPProtocol \<Rightarrow> bool outcome \<times> ISOTPProtocol" where
  "send_data now d callback p =
     (if state p \<noteq> IDLE then (Returns False, p)
      else if int (length d) > max_frame_size (config p) then (Returns False, p)
      else
        let p1 = p\<lparr>tx_buffer := d, tx_total_length := int (length d),
                   tx_remaining := int (length d), tx_sequence := 0,
                   tx_next_frame_index := 0, tx_block_counter := 0, tx_last_time := now\<rparr>;
            p2 = (if callback then p1\<lparr>on_transmission_complete := True\<rparr> else p1);
            max_payload = (if can_fd_enabled (config p2) then 64 else 7);
            (r, p3) = (if int (length d) \<le> max_payload
                       then send_single_frame now d (p2\<lparr>state := TRANSMITTING\<rparr>)
                       else send_first_frame now d (p2\<lparr>state := WAITING_FOR_FC\<rparr>))
        in case r of
             Returns u \<Rightarrow> (Returns True, start_timer now (real_of_int (p2_timeout (config p3)) / 1000) p3)
           | Raises e \<Rightarrow> (Raises e, p3)
           | Blocks \<Rightarrow> (Blocks, p3))"

subsection \<open>Receiving\<close>

text \<open>\<open>rx_queue.put(data)\<close>: waits for ever on a full queue.\<close>

definition rx_put :: "byte list \<Rightarrow> ISOTPProtocol \<Rightarrow> ISOTPProtocol option" where
  "rx_put d p =
     (if length (rx_queue p) \<ge> queue_maxsize then None else Some (p\<lparr>rx_queue := rx_queue p @ [d]\<rparr>))"

text \<open>\<open>_process_single_frame\<close>.\<close>

definition process_single_frame :: "ISOTPFrame \<Rightarrow> ISOTPProtocol \<Rightarrow> bool outcome \<times> ISOTPProtocol" where
  "process_single_frame f p =
     (case rx_put (data f) p of None \<Rightarrow> (Blocks, p) | Some p1 \<Rightarrow> (Returns True, p1))"

text \<open>
  \<open>_process_first_frame\<close>. The whole body is inside \<open>try\<close>: an exception sets the state
  to ERROR and returns False.
\<close>

definition process_first_frame :: "real \<Rightarrow> ISOTPFrame \<Rightarrow> ISOTPProtocol \<Rightarrow> bool outcome \<times> ISOTPProtocol" where
  "process_first_frame now f p =
     (if state p \<noteq> IDLE then (Returns False, p)
      else if length (data f) \<ge> 2 then
        (let p1 = p\<lparr>rx_expected_length := push_bit 8 (uint (data f ! 0)) OR uint (data f ! 1),
                    rx_buffer := drop 2 (data f)\<rparr>;
             p2 = p1\<lparr>state := RECEIVING, rx_sequence := 0, rx_next_sequence := 1,
                     rx_block_counter := 0, rx_last_time := now\<rparr>
         in case send_flow_control_frame now CONTINUE (cfg_block_size (config p2))
                   (cfg_st_min (config p2)) p2 of
              (Returns u, p3) \<Rightarrow>
                (Returns True, start_timer now (real_of_int (p4_timeout (config p3)) / 1000) p3)
            | (Raises e, p3) \<Rightarrow> (Returns False, p3\<lparr>state := ERROR\<rparr>)
            | (Blocks, p3) \<Rightarrow> (Blocks, p3))
      else (Returns False, p))"

text \<open>\<open>_process_consecutive_frame\<close>.\<close>

definition process_consecutive_frame ::
  "real \<Rightarrow> ISOTPFrame \<Rightarrow> ISOTPProtocol \<Rightarrow> bool outcome \<times> ISOTPProtocol"
where
  "process_consecutive_frame now f p =
     (if state p \<noteq> RECEIVING then (Returns False, p)
      else
        let expected_sequence = rx_next_sequence p AND 15 in
        if sequence_number f \<noteq> expected_sequence then (Returns False, p\<lparr>state := ERROR\<rparr>)
        else
          let p1 = p\<lparr>rx_buffer := rx_buffer p @ data f, rx_sequence := sequence_number f,
                     rx_next_sequence := (rx_next_sequence p + 1) AND 15,
                     rx_block_counter := rx_block_counter p + 1, rx_last_time := now\<rparr>
          in if int (length (rx_buffer p1)) \<ge> rx_expected_length p1 then
               (let received_data = py_slice (rx_buffer p1) 0 (rx_expected_length p1)
                in case rx_put received_data p1 of
                     None \<Rightarrow> (Blocks, p1)
                   | Some p2 \<Rightarrow>
                       (Returns True,
                        stop_timer (p2\<lparr>state := IDLE, rx_buffer := [], rx_expected_length := 0\<rparr>)))
             else if rx_block_counter p1 \<ge> rx_flow_block_size p1 \<and> rx_flow_block_size p1 > 0 then
               (case send_flow_control_frame now CONTINUE (cfg_block_size (config p1))
                       (cfg_st_min (config p1)) p1 of
                  (Returns u, p2) \<Rightarrow> (Returns True, p2\<lparr>rx_block_counter := 0\<rparr>)
                | (Raises e, p2) \<Rightarrow> (Returns False, p2\<lparr>state := ERROR\<rparr>)
                | (Blocks, p2) \<Rightarrow> (Blocks, p2))
             else (Returns True, p1))"

text \<open>
  The loop of \<open>_process_flow_control_frame\<close>:
  \<open>for _ in range(n): if self.tx_remaining > 0: self._send_consecutive_frame() else: break\<close>.
\<close>

fun send_block :: "real \<Rightarrow> nat \<Rightarrow> ISOTPProtocol \<Rightarrow> unit outcome \<times> ISOTPProtocol" where
  "send_block now 0 p = (Returns (), p)"
| "send_block now (Suc n) p =
     (if tx_remaining p > 0 then
        (case send_consecutive_frame now p of
           (Returns u, p1) \<Rightarrow> send_block now n p1
         | (Raises e, p1) \<Rightarrow> (Raises e, p1)
         | (Blocks, p1) \<Rightarrow> (Blocks, p1))
      else (Returns (), p))"

text \<open>
  \<open>_process_flow_control_frame\<close>. The number of passes of the loop is
  \<open>min(block_size, tx_remaining)\<close>, read once; \<open>range\<close> of a negative number is empty.
\<close>

definition process_flow_control_frame ::
  "real \<Rightarrow> ISOTPFrame \<Rightarrow> ISOTPProtocol \<Rightarrow> bool outcome \<times> ISOTPProtocol"
where
  "process_flow_control_frame now f p =
     (if state p \<noteq> WAITING_FOR_FC then (Returns False, p)
      else case flow_status f of
        CONTINUE \<Rightarrow>
          (let p1 = p\<lparr>state := TRANSMITTING, rx_flow_block_size := block_size f,
                      rx_flow_st_min := st_min f, tx_block_counter := 0\<rparr>
           in case send_block now (nat (min (block_size f) (tx_remaining p1))) p1 of
                (Returns u, p2) \<Rightarrow>
                  (Returns True,
                   start_timer now (real_of_int (p2_timeout (config p2)) / 1000) p2)
              | (Raises e, p2) \<Rightarrow> (Returns False, p2\<lparr>state := ERROR\<rparr>)
              | (Blocks, p2) \<Rightarrow> (Blocks, p2))
      | WAIT \<Rightarrow>
          (Returns True,
           start_timer now (real_of_int (p2_extended (config p)) / 1000)
             (p\<lparr>state := WAITING_FOR_FC\<rparr>))
      | OVERFLOW \<Rightarrow> (Returns False, call_error Flow_control_overflow (p\<lparr>state := ERROR\<rparr>)))"

text \<open>
  \<open>process_can_frame\<close>: a frame for another identifier or one that does not decode is
  refused; the others go to the handler of their type.
\<close>

definition process_can_frame :: "real \<Rightarrow> CANFrame \<Rightarrow> ISOTPProtocol \<Rightarrow> bool outcome \<times> ISOTPProtocol" where
  "process_can_frame now cf p =
     (if arbitration_id cf \<noteq> rx_id (config p) then (Returns False, p)
      else case decode_frame (can_data cf) (is_fd cf) of
        None \<Rightarrow> (Returns False, p)
      | Some f \<Rightarrow>
          (case frame_type f of
             SINGLE_FRAME \<Rightarrow> process_single_frame f p
           | FIRST_FRAME \<Rightarrow> process_first_frame now f p
           | CONSECUTIVE_FRAME \<Rightarrow> process_consecutive_frame now f p
           | FLOW_CONTROL_FRAME \<Rightarrow> process_flow_control_frame now f p))"

text \<open>The frames of the tx queue as the bytes they put on the wire.\<close>

definition wire :: "ISOTPProtocol \<Rightarrow> byte list list" where
  "wire p = map can_data (tx_queue p)"

subsection \<open>A 20-byte transmission\<close>

text \<open>
  A handler with the default configuration sends the 20 bytes 0..19; the peer answers the
  First Frame with a Flow Control frame \<open>30 BS STmin\<close> on the receive identifier.
\<close>

definition msg20 :: "byte list" where
  "msg20 = [0, 1, 2, 3, 4, 5, 6, 7, 8, 9, 10, 11, 12, 13, 14, 15, 16, 17, 18, 19]"

definition after_first_frame :: ISOTPProtocol where
  "after_first_frame = snd (send_data 0 msg20 False (init_protocol default_config))"

definition flow_control_continue :: "byte \<Rightarrow> byte \<Rightarrow> CANFrame" where
  "flow_control_continue bs stm =
     mk_CANFrame 0 0x7E0 [0x30, bs, stm] False False False False False False 0 0"

section \<open>The UDS session manager (uds\_session\_manager.py)\<close>

datatype UDSResponseCode = POSITIVE_RESPONSE | NEGATIVE_RESPONSE

fun response_code_value :: "UDSResponseCode \<Rightarrow> int" where
  "response_code_value POSITIVE_RESPONSE = 0x40"
| "response_code_value NEGATIVE_RESPONSE = 0x7F"

text \<open>The values of the members of the \<open>IntEnum\<close> \<open>UDSNegativeResponseCode\<close>.\<close>

definition negative_response_codes :: "int list" where
  "negative_response_codes =
     [0x10, 0x11, 0x12, 0x13, 0x14, 0x21, 0x22, 0x24, 0x25, 0x26, 0x31, 0x33, 0x35, 0x36, 0x37,
      0x70, 0x71, 0x72, 0x73, 0x78, 0x7E, 0x7F, 0x81, 0x82, 0x83, 0x84, 0x85, 0x86, 0x87, 0x88,
      0x89, 0x8A, 0x8B, 0x8C, 0x8D, 0x8F, 0x90, 0x91, 0x92, 0x93, 0x94]"

definition REQUEST_CORRECTLY_RECEIVED_RESPONSE_PENDING :: int where
  "REQUEST_CORRECTLY_RECEIVED_RESPONSE_PENDING = 0x78"

text \<open>\<open>UDSNegativeResponseCode(v)\<close>: ValueError for a value that is no member.\<close>

definition UDSNegativeResponseCode_of :: "int \<Rightarrow> py_error + int" where
  "UDSNegativeResponseCode_of v =
     (if v \<in> set negative_response_codes then Inr v else Inl ValueError)"

text \<open>
  \<open>UDSRequest\<close> and \<open>UDSResponse\<close>. Fields whose names both classes (or a frame) use carry
  the prefix \<open>req_\<close> or \<open>resp_\<close>.
\<close>

record UDSRequest =
  req_service_id :: int
  req_data :: "byte list"
  req_subfunction :: "int option"
  req_timeout :: int
  expect_response :: bool

record UDSResponse =
  resp_service_id :: int
  resp_data :: "byte list"
  resp_subfunction :: "int option"
  response_code :: UDSResponseCode
  negative_response_code :: "int option"
  resp_timestamp :: real
  request :: "UDSRequest option"

text \<open>\<open>UDSRequest.encode\<close>.\<close>

definition encode :: "UDSRequest \<Rightarrow> py_error + byte list" where
  "encode r =
     (case req_subfunction r of
        Some sf \<Rightarrow> bind_e (bytes_of [req_service_id r, sf]) (\<lambda>h. Inr (h @ req_data r))
      | None \<Rightarrow> bind_e (bytes_of [req_service_id r]) (\<lambda>h. Inr (h @ req_data r)))"

text \<open>
  The part of \<open>UDSSessionManager\<close> that requests and responses go through. Objects
  that the code shares by reference are kept in stores and named by their position there:
  \<open>responses\<close> holds every \<open>UDSResponse\<close> object that \<open>_process_response\<close> has built,
  \<open>closures\<close> the callbacks that calls of \<open>send_request\<close> have created. Such a callback
  is a closure over the request of its call and over two locals of that call, the list
  \<open>response_data\<close> and the event \<open>response_received\<close>. The response queue is
  \<open>queue.Queue(maxsize=100)\<close>, filled by \<open>_process_response\<close> and emptied only by
  \<open>close\<close>; it and \<open>response_data\<close> hold references to responses.
\<close>

record response_closure =
  closure_service_id :: int
  response_data :: "nat list"
  response_received :: bool

record UDSSessionManager =
  responses :: "UDSResponse list"
  response_queue :: "nat list"
  response_callbacks :: "int \<rightharpoonup> nat"
  closures :: "response_closure list"
  response_timeout :: int

definition response_queue_maxsize :: nat where
  "response_queue_maxsize = 100"

definition init_session :: UDSSessionManager where
  "init_session =
     \<lparr>responses = [], response_queue = [], response_callbacks = Map.empty, closures = [],
      response_timeout = 2000\<rparr>"

text \<open>
  The classification in \<open>_process_response\<close>: \<open>Inr (Some r)\<close> is the response built,
  \<open>Inr None\<close> a message dropped with a warning, \<open>Inl\<close> an exception inside the \<open>try\<close>.
\<close>

definition classify_response :: "real \<Rightarrow> byte list \<Rightarrow> py_error + UDSResponse option" where
  "classify_response now d =
     (if length d < 1 then Inr None
      else bind_e (byte_at d 0) (\<lambda>b0.
        if b0 = response_code_value NEGATIVE_RESPONSE \<and> length d \<ge> 3 then
          bind_e (byte_at d 1) (\<lambda>service_id.
          bind_e (byte_at d 2) (\<lambda>b2.
          bind_e (UDSNegativeResponseCode_of b2) (\<lambda>nrc.
            Inr (Some \<lparr>resp_service_id = service_id,
                       resp_data = (if length d > 3 then drop 3 d else []),
                       resp_subfunction = None, response_code = NEGATIVE_RESPONSE,
                       negative_response_code = Some nrc, resp_timestamp = now,
                       request = None\<rparr>))))
        else if b0 = response_code_value POSITIVE_RESPONSE \<and> length d \<ge> 1 then
          Inr (Some \<lparr>resp_service_id = b0 - response_code_value POSITIVE_RESPONSE,
                     resp_data = drop 1 d, resp_subfunction = None,
                     response_code = POSITIVE_RESPONSE, negative_response_code = None,
                     resp_timestamp = now, request = None\<rparr>)
        else Inr None))"

text \<open>
  A call of the callback \<open>c\<close> with the response at address \<open>a\<close>:
  \<open>if response.service_id == request.service_id: response_data.append(response);
  response_received.set()\<close>, on the locals of the call that created \<open>c\<close>. (The dictionary
  only ever holds callbacks that exist; a reference to none does nothing here.)
\<close>

definition response_callback :: "nat \<Rightarrow> nat \<Rightarrow> UDSSessionManager \<Rightarrow> UDSSessionManager" where
  "response_callback c a m =
     (if c < length (closures m) \<and> a < length (responses m)
         \<and> resp_service_id (responses m ! a) = closure_service_id (closures m ! c)
      then m\<lparr>closures := (closures m)
                 [c := (closures m ! c)\<lparr>response_data := response_data (closures m ! c) @ [a],
                                         response_received := True\<rparr>]\<rparr>
      else m)"

text \<open>
  \<open>_process_response\<close>, run by the response thread for each message that ISO-TP delivers:
  the response object is built and put on the queue (the thread waits for ever when the
  queue is full), then the callback registered for its service id is called.
\<close>

definition process_response :: "real \<Rightarrow> byte list \<Rightarrow> UDSSessionManager \<Rightarrow> unit outcome \<times> UDSSessionManager" where
  "process_response now d m =
     (case classify_response now d of
        Inl e \<Rightarrow> (Returns (), m)
      | Inr None \<Rightarrow> (Returns (), m)
      | Inr (Some r) \<Rightarrow>
          let a = length (responses m);
              m1 = m\<lparr>responses := responses m @ [r]\<rparr>
          in if length (response_queue m1) \<ge> response_queue_maxsize then (Blocks, m1)
             else
               let m2 = m1\<lparr>response_queue := response_queue m1 @ [a]\<rparr>
               in case response_callbacks m2 (resp_service_id r) of
                    Some c \<Rightarrow> (Returns (), response_callback c a m2)
                  | None \<Rightarrow> (Returns (), m2))"

text \<open>
  What happens in the session while a call of \<open>send_request\<close> waits: ISO-TP delivers a
  message to the response thread, or another call of \<open>send_request\<close>, in a thread of
  its own, registers its callback under its service id, or removes the callback registered
  under its service id when it ends.
\<close>

datatype session_event = Delivered "byte list" | Registered int | Removed int

text \<open>
  The registration, by a call that expects a response: \<open>response_received =
  threading.Event(); response_data = []\<close>, the callback over them, and
  \<open>self.response_callbacks[request.service_id] = response_callback\<close>.
\<close>

definition register_callback :: "int \<Rightarrow> UDSSessionManager \<Rightarrow> UDSSessionManager" where
  "register_callback sid m =
     m\<lparr>closures := closures m @
          [\<lparr>closure_service_id = sid, response_data = [], response_received = False\<rparr>],
       response_callbacks := (response_callbacks m)(sid \<mapsto> length (closures m))\<rparr>"

text \<open>\<open>del self.response_callbacks[service_id]\<close>, done only when the key is there.\<close>

definition remove_callback :: "int \<Rightarrow> UDSSessionManager \<Rightarrow> UDSSessionManager" where
  "remove_callback sid m =
     (if sid \<in> dom (response_callbacks m)
      then m\<lparr>response_callbacks := (response_callbacks m)(sid := None)\<rparr>
      else m)"

fun session_step ::
  "real \<Rightarrow> session_event \<Rightarrow> UDSSessionManager \<Rightarrow> unit outcome \<times> UDSSessionManager"
where
  "session_step now (Delivered d) m = process_response now d m"
| "session_step now (Registered sid) m = (Returns (), register_callback sid m)"
| "session_step now (Removed sid) m = (Returns (), remove_callback sid m)"

text \<open>
  \<open>response_received.wait(timeout / 1000.0)\<close> in the call that created the callback \<open>c\<close>.
  \<open>events\<close> is what happens in the session, in order, before the timeout of the wait
  expires. The wait ends as soon as the event of this call is set; it times out when
  \<open>events\<close> is used up, or the response thread is stuck at the full queue, with the event
  not set.
\<close>

definition received :: "nat \<Rightarrow> UDSSessionManager \<Rightarrow> bool" where
  "received c m = (c < length (closures m) \<and> response_received (closures m ! c))"

fun await_response ::
  "real \<Rightarrow> nat \<Rightarrow> session_event list \<Rightarrow> UDSSessionManager \<Rightarrow> UDSSessionManager"
where
  "await_response now c [] m = m"
| "await_response now c (e # es) m =
     (if received c m then m
      else case session_step now e m of
             (Returns u, m1) \<Rightarrow> await_response now c es m1
           | (Raises x, m1) \<Rightarrow> m1
           | (Blocks, m1) \<Rightarrow> m1)"

text \<open>\<open>ISOTPManager.send_data\<close>: False when no protocol has the given id.\<close>

definition manager_send_data ::
  "real \<Rightarrow> byte list \<Rightarrow> bool \<Rightarrow> ISOTPProtocol option \<Rightarrow> bool outcome \<times> ISOTPProtocol option"
where
  "manager_send_data now d callback po =
     (case po of
        None \<Rightarrow> (Returns False, None)
      | Some p \<Rightarrow> (case send_data now d callback p of (r, p1) \<Rightarrow> (r, Some p1)))"

text \<open>
  \<open>if request.expect_response and request.service_id in self.response_callbacks:
  del self.response_callbacks[request.service_id]\<close>.
\<close>

definition unregister :: "UDSRequest \<Rightarrow> UDSSessionManager \<Rightarrow> UDSSessionManager" where
  "unregister rq m = (if expect_response rq then remove_callback (req_service_id rq) m else m)"

text \<open>
  The end of a successful wait: \<open>response = response_data[0]; response.request = request;
  return response\<close>. The assignment changes the response object itself, which the response
  queue refers to as well.
\<close>

definition take_response ::
  "UDSRequest \<Rightarrow> nat \<Rightarrow> UDSSessionManager \<Rightarrow> UDSResponse option \<times> UDSSessionManager"
where
  "take_response rq c m =
     (case response_data (closures m ! c) of
        [] \<Rightarrow> (None, m)
      | a # as \<Rightarrow>
          let r = (responses m ! a)\<lparr>request := Some rq\<rparr>
          in (Some r, m\<lparr>responses := (responses m)[a := r]\<rparr>))"

text \<open>
  \<open>send_request\<close>, with what happens in the session while it waits. The request is
  encoded before the \<open>try\<close>; a call that expects a response registers its callback;
  inside the \<open>try\<close> an exception is logged and None returned; the \<open>finally\<close> clause
  removes the callback registered under the service id of the request.
\<close>

definition send_request_among ::
  "real \<Rightarrow> UDSRequest \<Rightarrow> session_event list \<Rightarrow> ISOTPProtocol option \<Rightarrow> UDSSessionManager \<Rightarrow>
     UDSResponse option outcome \<times> ISOTPProtocol option \<times> UDSSessionManager"
where
  "send_request_among now rq events po m =
     (case encode rq of
        Inl e \<Rightarrow> (Raises e, po, m)
      | Inr request_data \<Rightarrow>
          let c = length (closures m);
              m1 = (if expect_response rq then register_callback (req_service_id rq) m else m)
          in case manager_send_data now request_data False po of
               (Blocks, po1) \<Rightarrow> (Blocks, po1, m1)
             | (Raises e, po1) \<Rightarrow> (Returns None, po1, unregister rq m1)
             | (Returns success, po1) \<Rightarrow>
                 if \<not> success then (Returns None, po1, unregister rq m1)
                 else if expect_response rq then
                   (let m2 = await_response now c events m1
                    in if received c m2 then
                         (case take_response rq c m2 of
                            (result, m3) \<Rightarrow> (Returns result, po1, unregister rq m3))
                       else (Returns None, po1, unregister rq m2))
                 else
                   (Returns (Some \<lparr>resp_service_id = req_service_id rq, resp_data = [],
                                   resp_subfunction = None, response_code = POSITIVE_RESPONSE,
                                   negative_response_code = None, resp_timestamp = now,
                                   request = Some rq\<rparr>),
                    po1, unregister rq m1))"

text \<open>
  \<open>send_request\<close> in a session that no other call touches while it waits: \<open>arrivals\<close>
  are the messages that ISO-TP delivers to the response thread, in order, before the
  timeout of the wait expires.
\<close>

definition send_request ::
  "real \<Rightarrow> UDSRequest \<Rightarrow> byte list list \<Rightarrow> ISOTPProtocol option \<Rightarrow> UDSSessionManager \<Rightarrow>
     UDSResponse option outcome \<times> ISOTPProtocol option \<times> UDSSessionManager"
where
  "send_request now rq arrivals po m = send_request_among now rq (map Delivered arrivals) po m"

text \<open>
  Whether the response thread builds a response from a message; whether an event puts a
  response on the queue; whether an event touches what a call for the service id \<open>sid\<close>
  waits on: a response with that service id, or a callback registered or removed under it.
\<close>

definition is_response :: "real \<Rightarrow> byte list \<Rightarrow> bool" where
  "is_response now d = (case classify_response now d of Inr (Some r) \<Rightarrow> True | _ \<Rightarrow> False)"

fun queued :: "real \<Rightarrow> session_event \<Rightarrow> bool" where
  "queued now (Delivered d) = is_response now d"
| "queued now (Registered s) = False"
| "queued now (Removed s) = False"

fun concerns :: "real \<Rightarrow> int \<Rightarrow> session_event \<Rightarrow> bool" where
  "concerns now sid (Delivered d) =
     (case classify_response now d of
        Inr (Some r) \<Rightarrow> resp_service_id r = sid
      | _ \<Rightarrow> False)"
| "concerns now sid (Registered s) = (s = sid)"
| "concerns now sid (Removed s) = (s = sid)"

subsection \<open>Two requests\<close>

text \<open>
  ReadDataByIdentifier of the VIN (\<open>22 F1 81\<close>) and RoutineControl start of routine FF00
  (\<open>31 01 FF 00\<close>), both waiting for a response.
\<close>

definition read_vin :: UDSRequest where
  "read_vin =
     \<lparr>req_service_id = 0x22, req_data = [0xF1, 0x81], req_subfunction = None,
      req_timeout = 2000, expect_response = True\<rparr>"

definition start_routine :: UDSRequest where
  "start_routine =
     \<lparr>req_service_id = 0x31, req_data = [0xFF, 0x00], req_subfunction = Some 0x01,
      req_timeout = 2000, expect_response = True\<rparr>"

section \<open>The command executor (core/command\_project\_manager.py)\<close>

datatype CommandType = CAN_FRAME | UDS_COMMAND | WAIT_COMMAND | COMMENT | SCRIPT

datatype SendMode = SINGLE | PERIODIC | ON_CHANGE

datatype CommandStatus = PENDING | RUNNING | SUCCESS | FAILED | STOPPED

text \<open>
  \<open>WAIT_COMMAND\<close> is \<open>CommandType.WAIT\<close>: the flow status of ISO-TP has a member of
  that name already.

  The payload classes. Field names that several classes share carry a prefix
  (\<open>cf_\<close>, \<open>uds_\<close>, \<open>cmd_\<close>, \<open>grp_\<close>, \<open>prj_\<close>).
\<close>

record CANFrameCommand =
  cf_arbitration_id :: int
  cf_data :: "byte list"
  cf_is_extended_id :: bool
  cf_is_fd :: bool
  cf_bitrate_switch :: bool
  cf_error_state_indicator :: bool
  cf_dlc :: int
  cf_comment :: string

record UDSCommand =
  uds_service_id :: int
  uds_data :: "byte list"
  uds_subfunction :: "int option"
  uds_timeout :: int
  uds_expect_response :: bool
  uds_comment :: string

record WaitCommand =
  duration :: int
  wait_comment :: string

record CommentCommand =
  comment :: string

record ScriptCommand =
  script_code :: string
  script_comment :: string

record Command =
  cmd_id :: string
  cmd_name :: string
  command_type :: CommandType
  send_mode :: SendMode
  period :: int
  cmd_enabled :: bool
  status :: CommandStatus
  last_executed :: real
  execution_count :: int
  success_count :: int
  fail_count :: int
  can_frame :: "CANFrameCommand option"
  uds_command :: "UDSCommand option"
  wait_command :: "WaitCommand option"
  comment_command :: "CommentCommand option"
  script_command :: "ScriptCommand option"

record CommandGroup =
  grp_id :: string
  grp_name :: string
  grp_description :: string
  grp_enabled :: bool
  commands :: "Command list"
  repeat_count :: int
  repeat_interval :: int
  run_in_sequence :: bool

record CommandProject =
  prj_id :: string
  prj_name :: string
  prj_description :: string
  version :: string
  created_at :: real
  updated_at :: real
  groups :: "CommandGroup list"

text \<open>\<open>CANFrameCommand.to_can_frame\<close> and \<open>UDSCommand.to_uds_request\<close>.\<close>

definition to_can_frame :: "real \<Rightarrow> CANFrameCommand \<Rightarrow> CANFrame" where
  "to_can_frame now c =
     mk_CANFrame now (cf_arbitration_id c) (cf_data c) (cf_is_extended_id c) False False
       (cf_is_fd c) (cf_bitrate_switch c) (cf_error_state_indicator c) 0 (cf_dlc c)"

definition to_uds_request :: "UDSCommand \<Rightarrow> UDSRequest" where
  "to_uds_request c =
     \<lparr>req_service_id = uds_service_id c, req_data = uds_data c,
      req_subfunction = uds_subfunction c, req_timeout = uds_timeout c,
      expect_response = uds_expect_response c\<rparr>"

text \<open>
  What the control task does that can be seen from outside: the points where it calls a
  hook, hands a frame or a request to a manager, starts a thread for a periodic command, or
  sleeps (\<open>time.sleep\<close>, in milliseconds).
\<close>

datatype event =
    Project_started string | Project_completed string
  | Group_started string | Group_completed string
  | Command_started string | Command_completed string | Command_failed string
  | Can_sent CANFrame | Uds_sent UDSRequest | Periodic_spawned string
  | Slept int

fun is_command_started :: "event \<Rightarrow> bool" where
  "is_command_started (Command_started i) = True"
| "is_command_started e = False"

text \<open>
  A thread started for a periodic command runs \<open>_periodic_can_frame_sender\<close> or
  \<open>_periodic_uds_command_sender\<close> on the \<open>Command\<close> object it was given, here the
  command at position \<open>thread_command\<close> of the group at position \<open>thread_group\<close> of the
  project. It has not begun, is in its loop, or has ended.
\<close>

datatype periodic_job = Periodic_can CANFrame | Periodic_uds UDSRequest

datatype thread_phase = Not_begun | Looping | Ended

record periodic_thread =
  thread_group :: nat
  thread_command :: nat
  job :: periodic_job
  phase :: thread_phase

text \<open>
  What the control task cannot decide itself. \<open>stop_set k\<close> is the state of \<open>stop_event\<close>
  at the \<open>k\<close>-th look of the control task at it, counted from 0 (\<open>start_project\<close> clears
  the event, \<open>stop_project\<close> sets it from another thread). \<open>schedule y\<close> lists the
  periodic threads, by their position in \<open>threads\<close>, that take a step at the \<open>y\<close>-th point
  where the model lets other threads run. The managers' answers and the clock are indexed
  by the number of events so far.
\<close>

record environment =
  stop_set :: "nat \<Rightarrow> bool"
  schedule :: "nat \<Rightarrow> nat list"
  can_send_frame :: "nat \<Rightarrow> CANFrame \<Rightarrow> bool"
  uds_send_request :: "nat \<Rightarrow> UDSRequest \<Rightarrow> UDSResponse option"
  has_uds_manager :: bool
  time_at :: "nat \<Rightarrow> real"

text \<open>
  \<open>CommandExecutor\<close>. The project is the object that \<open>start_project\<close> was given: groups
  and commands are changed in place, so they are read from and written to
  \<open>current_project\<close>, and the current group and command are positions in it. \<open>threads\<close>
  are the threads started so far, \<open>periodic_threads\<close> the dictionary from command id to
  thread. \<open>trace\<close> lists the events of the control task, \<open>periodic_log\<close> the frames and
  requests sent by periodic threads.
\<close>

record CommandExecutor =
  running :: bool
  current_project :: "CommandProject option"
  current_group :: "nat option"
  current_command :: "(nat \<times> nat) option"
  threads :: "periodic_thread list"
  periodic_threads :: "string \<rightharpoonup> nat"
  checks :: nat
  yields :: nat
  trace :: "event list"
  periodic_log :: "event list"

definition init_executor :: CommandExecutor where
  "init_executor =
     \<lparr>running = False, current_project = None, current_group = None, current_command = None,
      threads = [], periodic_threads = Map.empty, checks = 0, yields = 0, trace = [],
      periodic_log = []\<rparr>"

definition project_groups :: "CommandExecutor \<Rightarrow> CommandGroup list" where
  "project_groups s = (case current_project s of None \<Rightarrow> [] | Some p \<Rightarrow> groups p)"

definition group_at :: "CommandExecutor \<Rightarrow> nat \<Rightarrow> CommandGroup" where
  "group_at s gi = project_groups s ! gi"

definition command_at :: "CommandExecutor \<Rightarrow> nat \<Rightarrow> nat \<Rightarrow> Command" where
  "command_at s gi ci = commands (group_at s gi) ! ci"

text \<open>An assignment to fields of the command at a position of the project.\<close>

definition update_command ::
  "nat \<Rightarrow> nat \<Rightarrow> (Command \<Rightarrow> Command) \<Rightarrow> CommandExecutor \<Rightarrow> CommandExecutor"
where
  "update_command gi ci f s =
     (case current_project s of
        None \<Rightarrow> s
      | Some p \<Rightarrow>
          if gi < length (groups p) \<and> ci < length (commands (groups p ! gi)) then
            s\<lparr>current_project := Some (p\<lparr>groups := (groups p)
                 [gi := (groups p ! gi)\<lparr>commands := (commands (groups p ! gi))
                    [ci := f (commands (groups p ! gi) ! ci)]\<rparr>]\<rparr>)\<rparr>
          else s)"

definition emit :: "event \<Rightarrow> CommandExecutor \<Rightarrow> CommandExecutor" where
  "emit e s = s\<lparr>trace := trace s @ [e]\<rparr>"

definition events_so_far :: "CommandExecutor \<Rightarrow> nat" where
  "events_so_far s = length (trace s) + length (periodic_log s)"

definition time_now :: "environment \<Rightarrow> CommandExecutor \<Rightarrow> real" where
  "time_now env s = time_at env (events_so_far s)"

subsection \<open>Periodic threads\<close>

definition set_phase :: "nat \<Rightarrow> thread_phase \<Rightarrow> CommandExecutor \<Rightarrow> CommandExecutor" where
  "set_phase t ph s = s\<lparr>threads := (threads s)[t := (threads s ! t)\<lparr>phase := ph\<rparr>]\<rparr>"

text \<open>
  One pass of the loop of \<open>_periodic_can_frame_sender\<close>, up to its sleep: the frame is
  sent and the counters of the command are updated.
\<close>

definition periodic_can_tick ::
  "environment \<Rightarrow> nat \<Rightarrow> nat \<Rightarrow> CANFrame \<Rightarrow> CommandExecutor \<Rightarrow> CommandExecutor"
where
  "periodic_can_tick env gi ci f s =
     (let success = can_send_frame env (events_so_far s) f;
          s1 = s\<lparr>periodic_log := periodic_log s @ [Can_sent f]\<rparr>
      in update_command gi ci
           (\<lambda>c. let c1 = c\<lparr>last_executed := time_now env s1,
                             execution_count := execution_count c + 1\<rparr>
                 in if success then c1\<lparr>success_count := success_count c1 + 1\<rparr>
                    else c1\<lparr>fail_count := fail_count c1 + 1\<rparr>) s1)"

text \<open>The same for \<open>_periodic_uds_command_sender\<close>, which also sets the status.\<close>

definition periodic_uds_tick ::
  "environment \<Rightarrow> nat \<Rightarrow> nat \<Rightarrow> UDSRequest \<Rightarrow> CommandExecutor \<Rightarrow> CommandExecutor"
where
  "periodic_uds_tick env gi ci rq s =
     (let response = uds_send_request env (events_so_far s) rq;
          s1 = s\<lparr>periodic_log := periodic_log s @ [Uds_sent rq]\<rparr>;
          positive = (case response of
                        Some r \<Rightarrow> response_code r = POSITIVE_RESPONSE | None \<Rightarrow> False)
      in update_command gi ci
           (\<lambda>c. let c1 = c\<lparr>last_executed := time_now env s1,
                             execution_count := execution_count c + 1\<rparr>
                 in if positive \<or> \<not> expect_response rq
                    then c1\<lparr>success_count := success_count c1 + 1, status := SUCCESS\<rparr>
                    else c1\<lparr>fail_count := fail_count c1 + 1, status := FAILED\<rparr>) s1)"

text \<open>
  A step of the thread at position \<open>t\<close>. Its first step sets the status RUNNING. In its
  loop, a step tests \<open>self.running and not self.stop_event.is_set()\<close>: if that holds, the
  step is one pass of the loop, which ends in \<open>time.sleep(command.period / 1000.0)\<close>; a
  negative period makes that raise ValueError, which the thread answers with the status
  FAILED before it ends. Otherwise the thread sets the status STOPPED and ends.
\<close>

definition thread_step :: "environment \<Rightarrow> nat \<Rightarrow> CommandExecutor \<Rightarrow> CommandExecutor" where
  "thread_step env t s =
     (if t < length (threads s) then
        (let th = threads s ! t; gi = thread_group th; ci = thread_command th in
         case phase th of
           Not_begun \<Rightarrow> set_phase t Looping (update_command gi ci (\<lambda>c. c\<lparr>status := RUNNING\<rparr>) s)
         | Looping \<Rightarrow>
             if running s \<and> \<not> stop_set env (checks s) then
               (let s1 = (case job th of
                            Periodic_can f \<Rightarrow> periodic_can_tick env gi ci f s
                          | Periodic_uds rq \<Rightarrow> periodic_uds_tick env gi ci rq s)
                in if period (command_at s1 gi ci) < 0
                   then set_phase t Ended (update_command gi ci (\<lambda>c. c\<lparr>status := FAILED\<rparr>) s1)
                   else s1)
             else set_phase t Ended (update_command gi ci (\<lambda>c. c\<lparr>status := STOPPED\<rparr>) s)
         | Ended \<Rightarrow> s)
      else s)"

text \<open>
  A point where other threads run: the threads that the environment schedules here take
  their steps, in the order given. The model has such a point at every look of the control
  task at the stop event, after the execution of a command and in every sleep of the
  control task.
\<close>

definition yield :: "environment \<Rightarrow> CommandExecutor \<Rightarrow> CommandExecutor" where
  "yield env s = fold (thread_step env) (schedule env (yields s)) (s\<lparr>yields := Suc (yields s)\<rparr>)"

definition is_set :: "environment \<Rightarrow> CommandExecutor \<Rightarrow> bool \<times> CommandExecutor" where
  "is_set env s =
     (let s1 = yield env s in (stop_set env (checks s1), s1\<lparr>checks := Suc (checks s1)\<rparr>))"

definition sleep :: "environment \<Rightarrow> int \<Rightarrow> CommandExecutor \<Rightarrow> CommandExecutor" where
  "sleep env ms s = yield env (emit (Slept ms) s)"

text \<open>\<open>self.periodic_threads[command.id] = thread; thread.start()\<close>.\<close>

definition spawn :: "string \<Rightarrow> periodic_thread \<Rightarrow> CommandExecutor \<Rightarrow> CommandExecutor" where
  "spawn i th s =
     s\<lparr>threads := threads s @ [th],
       periodic_threads := (periodic_threads s)(i \<mapsto> length (threads s))\<rparr>"

subsection \<open>One command\<close>

text \<open>\<open>_execute_can_frame_command\<close>, for the command at position \<open>ci\<close> of group \<open>gi\<close>.\<close>

definition execute_can_frame_command ::
  "environment \<Rightarrow> nat \<Rightarrow> nat \<Rightarrow> CommandExecutor \<Rightarrow> bool \<times> CommandExecutor"
where
  "execute_can_frame_command env gi ci s =
     (let c = command_at s gi ci in
      case can_frame c of
        None \<Rightarrow> (False, s)
      | Some can_frame_cmd \<Rightarrow>
          let f = to_can_frame (time_now env s) can_frame_cmd in
          (case send_mode c of
             SINGLE \<Rightarrow> (can_send_frame env (events_so_far s) f, emit (Can_sent f) s)
           | PERIODIC \<Rightarrow>
               (True,
                spawn (cmd_id c)
                  \<lparr>thread_group = gi, thread_command = ci, job = Periodic_can f,
                   phase = Not_begun\<rparr>
                  (emit (Periodic_spawned (cmd_id c)) s))
           | ON_CHANGE \<Rightarrow> (False, s)))"

text \<open>\<open>_execute_uds_command\<close>.\<close>

definition execute_uds_command ::
  "environment \<Rightarrow> nat \<Rightarrow> nat \<Rightarrow> CommandExecutor \<Rightarrow> bool \<times> CommandExecutor"
where
  "execute_uds_command env gi ci s =
     (let c = command_at s gi ci in
      case uds_command c of
        None \<Rightarrow> (False, s)
      | Some uds_cmd \<Rightarrow>
          if \<not> has_uds_manager env then (False, s)
          else
            let uds_request = to_uds_request uds_cmd in
            (case send_mode c of
               SINGLE \<Rightarrow>
                 (case uds_send_request env (events_so_far s) uds_request of
                    Some response \<Rightarrow>
                      (response_code response = POSITIVE_RESPONSE, emit (Uds_sent uds_request) s)
                  | None \<Rightarrow> (\<not> uds_expect_response uds_cmd, emit (Uds_sent uds_request) s))
             | PERIODIC \<Rightarrow>
                 (True,
                  spawn (cmd_id c)
                    \<lparr>thread_group = gi, thread_command = ci, job = Periodic_uds uds_request,
                     phase = Not_begun\<rparr>
                    (emit (Periodic_spawned (cmd_id c)) s))
             | ON_CHANGE \<Rightarrow> (False, s)))"

text \<open>
  \<open>_execute_wait_command\<close>: \<open>time.sleep\<close> raises ValueError for a negative length, and
  the method then returns False.
\<close>

definition execute_wait_command ::
  "environment \<Rightarrow> nat \<Rightarrow> nat \<Rightarrow> CommandExecutor \<Rightarrow> bool \<times> CommandExecutor"
where
  "execute_wait_command env gi ci s =
     (case wait_command (command_at s gi ci) of
        None \<Rightarrow> (False, s)
      | Some wait_cmd \<Rightarrow>
          if duration wait_cmd < 0 then (False, s)
          else (True, sleep env (duration wait_cmd) s))"

text \<open>
  \<open>_execute_command\<close>. Comment and script commands do nothing and succeed; a command whose
  payload does not match its type fails.
\<close>

definition execute_command ::
  "environment \<Rightarrow> nat \<Rightarrow> nat \<Rightarrow> CommandExecutor \<Rightarrow> bool \<times> CommandExecutor"
where
  "execute_command env gi ci s =
     (let c = command_at s gi ci in
      if command_type c = CAN_FRAME \<and> can_frame c \<noteq> None then execute_can_frame_command env gi ci s
      else if command_type c = UDS_COMMAND \<and> uds_command c \<noteq> None then execute_uds_command env gi ci s
      else if command_type c = WAIT_COMMAND \<and> wait_command c \<noteq> None then execute_wait_command env gi ci s
      else if command_type c = COMMENT \<and> comment_command c \<noteq> None then (True, s)
      else if command_type c = SCRIPT \<and> script_command c \<noteq> None then (True, s)
      else (False, s))"

text \<open>
  The body of the \<open>for\<close> loop of \<open>_execute_group\<close> for a command that is run: start hook,
  execution, counters and status, completion or failure hook. The counters are read when
  they are written, after whatever a periodic thread has done to them.
\<close>

definition run_command :: "environment \<Rightarrow> nat \<Rightarrow> nat \<Rightarrow> CommandExecutor \<Rightarrow> CommandExecutor" where
  "run_command env gi ci s =
     (let i = cmd_id (command_at s gi ci);
          s1 = emit (Command_started i) (s\<lparr>current_command := Some (gi, ci)\<rparr>)
      in case execute_command env gi ci s1 of (success, s2) \<Rightarrow>
           let s3 = yield env s2;
               s4 = update_command gi ci
                      (\<lambda>c. c\<lparr>last_executed := time_now env s3,
                              execution_count := execution_count c + 1\<rparr>) s3
           in if success
              then emit (Command_completed i)
                     (update_command gi ci
                        (\<lambda>c. c\<lparr>status := SUCCESS, success_count := success_count c + 1\<rparr>) s4)
              else emit (Command_failed i)
                     (update_command gi ci
                        (\<lambda>c. c\<lparr>status := FAILED, fail_count := fail_count c + 1\<rparr>) s4))"

subsection \<open>Groups\<close>

text \<open>
  The \<open>for\<close> loop of \<open>_execute_group\<close> over the commands of group \<open>gi\<close>, given by their
  positions. A disabled command is skipped without looking at the stop event; once the
  event is set before a command, that command and all later ones are skipped; when it is
  set after a command, the loop is left.
\<close>

fun run_commands :: "environment \<Rightarrow> nat \<Rightarrow> nat list \<Rightarrow> CommandExecutor \<Rightarrow> CommandExecutor" where
  "run_commands env gi [] s = s"
| "run_commands env gi (ci # ps) s =
     (if \<not> cmd_enabled (command_at s gi ci) then run_commands env gi ps s
      else
        case is_set env s of (stopped, s1) \<Rightarrow>
          if stopped then run_commands env gi ps s1
          else
            case is_set env (run_command env gi ci s1) of (stopped2, s3) \<Rightarrow>
              if stopped2 then s3 else run_commands env gi ps s3)"

definition command_positions :: "CommandExecutor \<Rightarrow> nat \<Rightarrow> nat list" where
  "command_positions s gi = [0 ..< length (commands (group_at s gi))]"

text \<open>
  The \<open>while\<close> loop of \<open>_execute_group\<close>, \<open>k\<close> being the local counter \<open>repeat_count\<close>.
  With \<open>group.repeat_count = 0\<close> only the stop event ends it, so the loop is given fuel,
  one unit for each pass; None says that the fuel did not suffice.
\<close>

fun group_loop ::
  "nat \<Rightarrow> environment \<Rightarrow> nat \<Rightarrow> int \<Rightarrow> CommandExecutor \<Rightarrow> CommandExecutor option"
where
  "group_loop 0 env gi k s = None"
| "group_loop (Suc fuel) env gi k s =
     (if k < repeat_count (group_at s gi) \<or> repeat_count (group_at s gi) = 0 then
        (case is_set env s of (stopped, s1) \<Rightarrow>
           if stopped then Some s1
           else
             let s2 = run_commands env gi (command_positions s1 gi) s1 in
             if repeat_count (group_at s2 gi) > 0 \<and> k + 1 \<ge> repeat_count (group_at s2 gi)
             then Some s2
             else group_loop fuel env gi (k + 1) s2)
      else Some s)"

text \<open>\<open>_execute_group\<close>.\<close>

definition execute_group ::
  "nat \<Rightarrow> environment \<Rightarrow> nat \<Rightarrow> CommandExecutor \<Rightarrow> CommandExecutor option"
where
  "execute_group fuel env gi s = group_loop fuel env gi 0 s"

text \<open>One pass of the \<open>while\<close> loop that is not stopped at its top.\<close>

definition pass :: "environment \<Rightarrow> nat \<Rightarrow> CommandExecutor \<Rightarrow> CommandExecutor" where
  "pass env gi s =
     run_commands env gi (command_positions (snd (is_set env s)) gi) (snd (is_set env s))"

subsection \<open>Projects\<close>

text \<open>
  After a group, and only when the stop event is not set, the control task sleeps for the
  group's \<open>repeat_interval\<close> if that is positive.
\<close>

definition after_group :: "environment \<Rightarrow> nat \<Rightarrow> CommandExecutor \<Rightarrow> CommandExecutor" where
  "after_group env gi s =
     (if repeat_interval (group_at s gi) > 0 then
        (case is_set env s of (stopped, s1) \<Rightarrow>
           if \<not> stopped then sleep env (repeat_interval (group_at s1 gi)) s1 else s1)
      else s)"

text \<open>
  Around the run of a group: \<open>self.current_group = group\<close> and the hook for its start
  before it, the hook for its completion after it.
\<close>

definition begin_group :: "nat \<Rightarrow> CommandExecutor \<Rightarrow> CommandExecutor" where
  "begin_group gi s = emit (Group_started (grp_id (group_at s gi))) (s\<lparr>current_group := Some gi\<rparr>)"

definition end_group :: "nat \<Rightarrow> CommandExecutor \<Rightarrow> CommandExecutor" where
  "end_group gi s = emit (Group_completed (grp_id (group_at s gi))) s"

text \<open>The \<open>for\<close> loop over the groups in \<open>_execute_project\<close>, given by their positions.\<close>

fun run_groups ::
  "nat \<Rightarrow> environment \<Rightarrow> nat list \<Rightarrow> CommandExecutor \<Rightarrow> CommandExecutor option"
where
  "run_groups fuel env [] s = Some s"
| "run_groups fuel env (gi # gis) s =
     (if \<not> grp_enabled (group_at s gi) then run_groups fuel env gis s
      else
        case is_set env s of (stopped, s1) \<Rightarrow>
          if stopped then run_groups fuel env gis s1
          else
            case execute_group fuel env gi (begin_group gi s1) of
              None \<Rightarrow> None
            | Some s2 \<Rightarrow>
                case is_set env (end_group gi s2) of (stopped2, s3) \<Rightarrow>
                  if stopped2 then Some s3
                  else run_groups fuel env gis (after_group env gi s3))"

text \<open>
  \<open>_execute_project\<close>, the body of the control task that \<open>start_project\<close> starts.
\<close>

definition execute_project :: "nat \<Rightarrow> environment \<Rightarrow> CommandExecutor \<Rightarrow> CommandExecutor option" where
  "execute_project fuel env s =
     (case current_project s of
        None \<Rightarrow> Some s
      | Some project \<Rightarrow>
          let s0 = s\<lparr>current_project := Some (project\<lparr>updated_at := time_now env s\<rparr>)\<rparr>
          in case run_groups fuel env [0 ..< length (groups project)] s0 of
               None \<Rightarrow> None
             | Some s1 \<Rightarrow>
                 Some (emit (Project_completed (prj_id project)) (s1\<lparr>running := False\<rparr>)))"

text \<open>\<open>start_project\<close>: refused while a project runs.\<close>

definition start_project :: "CommandProject \<Rightarrow> CommandExecutor \<Rightarrow> bool \<times> CommandExecutor" where
  "start_project project s =
     (if running s then (False, s)
      else (True,
            emit (Project_started (prj_id project))
              (s\<lparr>current_project := Some project, running := True\<rparr>)))"

text \<open>
  What no step of the executor or of a periodic thread changes: the identity and the
  settings of the groups, and the identity and the enabled flag of their commands.
\<close>

definition command_shape :: "Command \<Rightarrow> string \<times> bool" where
  "command_shape c = (cmd_id c, cmd_enabled c)"

definition group_shape :: "CommandGroup \<Rightarrow> string \<times> bool \<times> int \<times> int \<times> (string \<times> bool) list" where
  "group_shape g =
     (grp_id g, grp_enabled g, repeat_count g, repeat_interval g, map command_shape (commands g))"

definition shape :: "CommandExecutor \<Rightarrow> (string \<times> bool \<times> int \<times> int \<times> (string \<times> bool) list) list" where
  "shape s = map group_shape (project_groups s)"

text \<open>The starts of the enabled commands of a group in one pass, in order.\<close>

definition starts_of :: "CommandGroup \<Rightarrow> event list" where
  "starts_of g = map (\<lambda>c. Command_started (cmd_id c)) (filter cmd_enabled (commands g))"

subsection \<open>A small project\<close>

text \<open>
  Two environments, one in which \<open>stop_project\<close> is never called and one in which the stop
  event is set from the \<open>n\<close>-th look at it on, both without periodic threads to schedule;
  a comment command; a group that runs it twice with a repeat interval of 1000 ms, and
  the same group with \<open>repeat_count = 0\<close>; a project of each, started.
\<close>

definition never_stopped :: environment where
  "never_stopped =
     \<lparr>stop_set = (\<lambda>k. False), schedule = (\<lambda>y. []), can_send_frame = (\<lambda>k f. True),
      uds_send_request = (\<lambda>k r. None), has_uds_manager = False, time_at = (\<lambda>k. 0)\<rparr>"

definition stopped_at :: "nat \<Rightarrow> environment" where
  "stopped_at n = never_stopped\<lparr>stop_set := (\<lambda>k. n \<le> k)\<rparr>"

definition note_cmd :: Command where
  "note_cmd =
     \<lparr>cmd_id = ''c1'', cmd_name = ''note'', command_type = COMMENT, send_mode = SINGLE,
      period = 1000, cmd_enabled = True, status = PENDING, last_executed = 0,
      execution_count = 0, success_count = 0, fail_count = 0, can_frame = None,
      uds_command = None, wait_command = None,
      comment_command = Some \<lparr>comment = ''hello''\<rparr>, script_command = None\<rparr>"

definition twice :: CommandGroup where
  "twice =
     \<lparr>grp_id = ''g1'', grp_name = ''twice'', grp_description = [], grp_enabled = True,
      commands = [note_cmd], repeat_count = 2, repeat_interval = 1000, run_in_sequence = True\<rparr>"

definition forever :: CommandGroup where
  "forever = twice\<lparr>grp_id := ''g0'', grp_name := ''forever'', repeat_count := 0\<rparr>"

definition demo_project :: CommandProject where
  "demo_project =
     \<lparr>prj_id = ''p1'', prj_name = ''demo'', prj_description = [], version = ''1.0'',
      created_at = 0, updated_at = 0, groups = [twice]\<rparr>"

definition endless_project :: CommandProject where
  "endless_project = demo_project\<lparr>prj_id := ''p0'', groups := [forever]\<rparr>"

definition demo_started :: CommandExecutor where
  "demo_started = snd (start_project demo_project init_executor)"

definition endless_started :: CommandExecutor where
  "endless_started = snd (start_project endless_project init_executor)"

text \<open>
  A project whose only group runs once a CAN frame command sent periodically, and an
  environment that lets the thread of that command, the first thread started, take two
  steps at the \<open>y0\<close>-th point where other threads run.
\<close>

definition beacon_cmd :: Command where
  "beacon_cmd =
     \<lparr>cmd_id = ''c2'', cmd_name = ''beacon'', command_type = CAN_FRAME, send_mode = PERIODIC,
      period = 100, cmd_enabled = True, status = PENDING, last_executed = 0,
      execution_count = 0, success_count = 0, fail_count = 0,
      can_frame = Some \<lparr>cf_arbitration_id = 0x123, cf_data = [0x01], cf_is_extended_id = False,
                         cf_is_fd = False, cf_bitrate_switch = False,
                         cf_error_state_indicator = False, cf_dlc = 0, cf_comment = []\<rparr>,
      uds_command = None, wait_command = None, comment_command = None, script_command = None\<rparr>"

definition once :: CommandGroup where
  "once = twice\<lparr>grp_id := ''g2'', grp_name := ''once'', commands := [beacon_cmd],
                repeat_count := 1, repeat_interval := 0\<rparr>"

definition beacon_project :: CommandProject where
  "beacon_project = demo_project\<lparr>prj_id := ''p2'', groups := [once]\<rparr>"

definition beacon_started :: CommandExecutor where
  "beacon_started = snd (start_project beacon_project init_executor)"

definition thread_runs_at :: "nat \<Rightarrow> environment" where
  "thread_runs_at y0 = never_stopped\<lparr>schedule := (\<lambda>y. if y = y0 then [0, 0] else [])\<rparr>"

section \<open>Properties\<close>

subsection \<open>Nibbles of a byte\<close>

lemma nib_hi: "drop_bit 4 (uint (b::byte)) AND 15 = uint b div 16"
proof -
  have "uint b < 256" using uint_bounded[of b] by simp
  moreover have "0 \<le> uint b" by simp
  ultimately have "uint b div 16 < 16" "0 \<le> uint b div 16"
    by (auto simp: pos_imp_zdiv_nonneg_iff)
  then have "(uint b div 16) AND mask 4 = uint b div 16"
    by (simp add: take_bit_eq_mask[symmetric] take_bit_int_eq_self)
  then show ?thesis by (simp add: drop_bit_eq_div mask_eq_exp_minus_1)
qed

lemma nib_lo: "uint (b::byte) AND 15 = uint b mod 16"
proof -
  have "uint b AND mask 4 = uint b mod 2 ^ 4"
    by (simp only: take_bit_eq_mask[symmetric] take_bit_eq_mod)
  then show ?thesis by (simp add: mask_eq_exp_minus_1)
qed

lemmas decode_defs = decode_frame_def decode_frame_body_def bind_e_def byte_at_def
  ISOTPFlowStatus_of_def nib_hi nib_lo

subsection \<open>CAN frame construction\<close>

text \<open>
  C9. A CANFrame built with the default \<open>dlc = 0\<close> ends up with \<open>dlc = len(data)\<close>, so a
  constructed frame with non-empty data never carries DLC 0; a non-zero \<open>dlc\<close> given by the
  caller is kept as it is, whatever the length of the data.
\<close>

theorem CANFrame_dlc_post_init:
  "dlc (mk_CANFrame ts aid d ext rtr err fd brs esi ch 0) = int (length d)
   \<and> (d \<noteq> [] \<longrightarrow> dlc (mk_CANFrame ts aid d ext rtr err fd brs esi ch dl) \<noteq> 0)
   \<and> (dl \<noteq> 0 \<longrightarrow> dlc (mk_CANFrame ts aid d ext rtr err fd brs esi ch dl) = dl)"
  by (simp add: mk_CANFrame_def post_init_def)

theorem CANFrame_dlc_post_init_witness:
  "dlc (mk_CANFrame 0 0x7E0 [1, 2, 3] False False False False False False 0 0) = 3
   \<and> dlc (mk_CANFrame 0 0x7E0 [1, 2, 3] False False False False False False 0 8) = 8"
  using CANFrame_dlc_post_init [of 0 "0x7E0" "[1, 2, 3]" False False False False False False 0 8]
  by simp

subsection \<open>Decoding\<close>

text \<open>
  C10. \<open>decode_frame\<close> never raises: an exception inside its body becomes None. It returns
  None for empty input, for an extended single frame (PCI byte 0x00) or a flow control frame
  (PCI high nibble 3) shorter than 3 bytes, for an extended first frame (PCI byte 0x10)
  shorter than 4 bytes, and for a flow control frame whose flow-status nibble is none of
  0, 1, 2.
\<close>

theorem decode_frame_total:
  "decode_frame [] fd = None
   \<and> (decode_frame_body cd fd = Inl e \<longrightarrow> decode_frame cd fd = None)
   \<and> (length r1 < 2 \<longrightarrow> decode_frame (0 # r1) fd = None)
   \<and> (uint b2 div 16 = 3 \<and> length r2 < 2 \<longrightarrow> decode_frame (b2 # r2) fd = None)
   \<and> (length r3 < 3 \<longrightarrow> decode_frame (0x10 # r3) fd = None)
   \<and> (uint b4 div 16 = 3 \<and> uint b4 mod 16 \<notin> {0, 1, 2} \<longrightarrow> decode_frame (b4 # r4) fd = None)"
proof (intro conjI impI)
  show "decode_frame [] fd = None" by (simp add: decode_defs)
  show "decode_frame cd fd = None" if "decode_frame_body cd fd = Inl e"
    using that by (simp add: decode_frame_def)
  show "decode_frame (0 # r1) fd = None" if "length r1 < 2"
    using that by (simp add: decode_defs)
  show "decode_frame (b2 # r2) fd = None" if "uint b2 div 16 = 3 \<and> length r2 < 2"
    using that by (simp add: decode_defs)
  show "decode_frame (0x10 # r3) fd = None" if "length r3 < 3"
    using that by (simp add: decode_defs)
  show "decode_frame (b4 # r4) fd = None"
    if "uint b4 div 16 = 3 \<and> uint b4 mod 16 \<notin> {0, 1, 2}"
    using that by (simp add: decode_defs)
qed

theorem decode_frame_total_witness:
  "decode_frame_body [0x13] False = Inl IndexError \<and> decode_frame [0x13] False = None
   \<and> decode_frame [0x00, 0x05] False = None
   \<and> decode_frame [0x30, 0x08] False = None
   \<and> decode_frame [0x10, 0x00, 0x14] False = None
   \<and> decode_frame [0x33, 0x08, 0x00] False = None"
  using decode_frame_total [of False "[0x13]" IndexError "[0x05]" "0x30" "[0x08]" "[0x00, 0x14]"
      "0x33" "[0x08, 0x00]"]
  by (simp add: decode_frame_body_def bind_e_def byte_at_def nib_hi nib_lo)

subsection \<open>Transmission\<close>

lemmas enc_defs = encode_frame_def encode_pci_def bytes_of_def bind_e_def calculate_dlc_def
  standard_dlc_table_def fd_dlc_table_def mk_ISOTPFrame_def py_slice_def slice_bound_def

text \<open>
  C3. The First Frame of a multi-frame message should carry the total message length in its
  PCI. For the 20-byte message the handler accepts the send and puts \<open>10 06\<close> on the wire,
  the length of the first slice, where the total length gives \<open>10 14\<close>.
\<close>

theorem first_frame_pci_carries_slice_length:
  "length msg20 = 20
   \<and> fst (send_data 0 msg20 False (init_protocol default_config)) = Returns True
   \<and> wire after_first_frame = [[0x10, 0x06, 0, 1, 2, 3, 4, 5]]"
  by code_simp

text \<open>
  C4. The first Consecutive Frame should carry sequence number 1. After the First Frame of the
  20-byte message and \<open>FC(Continue, BS = 8, STmin = 0)\<close>, the two Consecutive Frames on the
  wire start with \<open>20\<close> and \<open>21\<close>: sequence numbers 0 and 1.
\<close>

theorem first_consecutive_frame_has_sequence_0:
  "(case process_can_frame 0 (flow_control_continue 8 0) after_first_frame of
      (r, p) \<Rightarrow>
        r = Returns True
        \<and> wire p = [[0x10, 0x06, 0, 1, 2, 3, 4, 5],
                    [0x20, 6, 7, 8, 9, 10, 11, 12],
                    [0x21, 13, 14, 15, 16, 17, 18, 19]])"
  by code_simp

text \<open>
  C5. A Flow Control frame with block size 0 should release all remaining Consecutive Frames.
  After the First Frame of the 20-byte message and \<open>FC(Continue, BS = 0, STmin = 0)\<close>, the
  handler accepts the frame and sends nothing: the wire holds the First Frame only, 14 bytes
  remain, and the handler sits in TRANSMITTING with its timer running.
\<close>

theorem block_size_0_sends_nothing:
  "(case process_can_frame 0 (flow_control_continue 0 0) after_first_frame of
      (r, p) \<Rightarrow>
        r = Returns True
        \<and> wire p = [[0x10, 0x06, 0, 1, 2, 3, 4, 5]]
        \<and> state p = TRANSMITTING \<and> tx_remaining p = 14 \<and> timer_running p)"
  by code_simp

text \<open>
  C6. A message longer than \<open>max_frame_size\<close> (4095 by default) is refused: \<open>send_data\<close>
  returns False, queues no frame and leaves every field of the handler as it was. An idle
  handler stays idle, and a following send of a short message is accepted.
\<close>

theorem send_data_too_long:
  "max_frame_size (config p) < int (length d) \<longrightarrow>
     send_data now d cb p = (Returns False, p)
     \<and> (state p = IDLE \<and> \<not> can_fd_enabled (config p) \<and> length d2 \<le> 7
          \<and> int (length d2) \<le> max_frame_size (config p)
          \<and> (tx_padding (config p) \<longrightarrow>
                0 \<le> tx_padding_value (config p) \<and> tx_padding_value (config p) < 256)
          \<and> length (tx_queue p) < queue_maxsize
        \<longrightarrow> fst (send_data now2 d2 cb2 (snd (send_data now d cb p))) = Returns True)"
proof (intro impI conjI)
  assume big: "max_frame_size (config p) < int (length d)"
  then show r: "send_data now d cb p = (Returns False, p)"
    by (simp add: send_data_def)
  assume h: "state p = IDLE \<and> \<not> can_fd_enabled (config p) \<and> length d2 \<le> 7
          \<and> int (length d2) \<le> max_frame_size (config p)
          \<and> (tx_padding (config p) \<longrightarrow>
                0 \<le> tx_padding_value (config p) \<and> tx_padding_value (config p) < 256)
          \<and> length (tx_queue p) < queue_maxsize"
  have "fst (send_data now2 d2 cb2 p) = Returns True"
    using h
    by (auto simp add: send_data_def send_single_frame_def tx_put_def enc_defs Let_def
        split: prod.splits)
  then show "fst (send_data now2 d2 cb2 (snd (send_data now d cb p))) = Returns True"
    by (simp add: r)
qed

theorem send_data_too_long_witness:
  "max_frame_size (config (init_protocol default_config)) < int (length (replicate 4096 (0::byte)))
   \<and> send_data 0 (replicate 4096 0) False (init_protocol default_config)
       = (Returns False, init_protocol default_config)
   \<and> fst (send_data 1 [0x22, 0xF1, 0x81] False
            (snd (send_data 0 (replicate 4096 0) False (init_protocol default_config))))
       = Returns True"
proof -
  let ?p = "init_protocol default_config"
  have big: "max_frame_size (config ?p) < int (length (replicate 4096 (0::byte)))"
    by (simp add: init_protocol_def default_config_def)
  have idle: "state ?p = IDLE \<and> \<not> can_fd_enabled (config ?p)
          \<and> length [0x22, 0xF1, 0x81 :: byte] \<le> 7
          \<and> int (length [0x22, 0xF1, 0x81 :: byte]) \<le> max_frame_size (config ?p)
          \<and> (tx_padding (config ?p) \<longrightarrow>
                0 \<le> tx_padding_value (config ?p) \<and> tx_padding_value (config ?p) < 256)
          \<and> length (tx_queue ?p) < queue_maxsize"
    by (simp add: init_protocol_def default_config_def queue_maxsize_def)
  show ?thesis
    using send_data_too_long [of ?p "replicate 4096 0" 0 False "[0x22, 0xF1, 0x81]" 1 False]
      big idle
    by blast
qed

subsection \<open>Responses\<close>

text \<open>
  C1. A message whose first byte B is not 0x7F and has bit 0x40 set should be taken as the
  positive response to service B - 0x40. The reply \<open>62 F1 81 57\<close> is dropped as malformed,
  and the outstanding request \<open>22 F1 81\<close> that it answers runs into its timeout and
  returns None.
\<close>

theorem positive_response_0x62_dropped:
  "classify_response 0 [0x62, 0xF1, 0x81, 0x57] = Inr None
   \<and> fst (send_request 0 read_vin [[0x62, 0xF1, 0x81, 0x57]]
            (Some (init_protocol default_config)) init_session) = Returns None"
  by code_simp

text \<open>
  C2, as stated, fails: with \<open>7F 31 78\<close> followed by the definitive \<open>71 01 FF 00\<close>, the
  call for \<open>31 01 FF 00\<close> returns the response-pending negative response.
\<close>

theorem send_request_pending_counterexample:
  "fst (send_request 0 start_routine [[0x7F, 0x31, 0x78], [0x71, 0x01, 0xFF, 0x00]]
          (Some (init_protocol default_config)) init_session)
   = Returns (Some \<lparr>resp_service_id = 0x31, resp_data = [], resp_subfunction = None,
                    response_code = NEGATIVE_RESPONSE, negative_response_code = Some 0x78,
                    resp_timestamp = 0, request = Some start_routine\<rparr>)"
  by code_simp

lemma classify_pending:
  "classify_response now ([0x7F, sb, 0x78] @ extra) =
     Inr (Some \<lparr>resp_service_id = uint sb, resp_data = extra, resp_subfunction = None,
        response_code = NEGATIVE_RESPONSE,
        negative_response_code = Some 0x78, resp_timestamp = now,
        request = None\<rparr>)"
  by (simp add: classify_response_def bind_e_def byte_at_def UDSNegativeResponseCode_of_def
      negative_response_codes_def)

lemma process_uncorrelated:
  assumes "c < length (closures m)"
    and "closure_service_id (closures m ! c) = sid"
    and "\<forall>r. classify_response now d = Inr (Some r) \<longrightarrow> resp_service_id r \<noteq> sid"
    and "length (response_queue m) + (if is_response now d then 1 else 0) < response_queue_maxsize"
  shows "\<exists>m'. process_response now d m = (Returns (), m')
           \<and> length (closures m') = length (closures m)
           \<and> closures m' ! c = closures m ! c
           \<and> response_callbacks m' = response_callbacks m
           \<and> length (response_queue m')
               = length (response_queue m) + (if is_response now d then 1 else 0)"
proof (cases "classify_response now d")
  case (Inl e)
  then show ?thesis by (simp add: process_response_def is_response_def)
next
  case (Inr ro)
  show ?thesis
  proof (cases ro)
    case None
    with Inr show ?thesis by (simp add: process_response_def is_response_def)
  next
    case (Some r)
    with Inr have cl: "classify_response now d = Inr (Some r)" by simp
    then have isr: "is_response now d" by (simp add: is_response_def)
    have ne: "resp_service_id r \<noteq> sid" using assms(3) cl by simp
    have room: "\<not> response_queue_maxsize \<le> length (response_queue m)"
      using assms(4) isr by simp
    show ?thesis
    proof (cases "response_callbacks m (resp_service_id r)")
      case None
      then show ?thesis using cl room isr
        by (simp add: process_response_def Let_def)
    next
      case (Some c')
      show ?thesis
      proof (cases "c' = c")
        case True
        then show ?thesis using cl room isr Some ne assms(1,2)
          by (simp add: process_response_def Let_def response_callback_def nth_append)
      next
        case False
        then show ?thesis using cl room isr Some assms(1)
          by (simp add: process_response_def Let_def response_callback_def)
      qed
    qed
  qed
qed

lemma step_unconcerned:
  assumes "c < length (closures m)"
    and "closure_service_id (closures m ! c) = sid"
    and "\<not> concerns now sid e"
    and "length (response_queue m) + (if queued now e then 1 else 0) < response_queue_maxsize"
  shows "\<exists>m'. session_step now e m = (Returns (), m')
           \<and> c < length (closures m')
           \<and> closures m' ! c = closures m ! c
           \<and> response_callbacks m' sid = response_callbacks m sid
           \<and> length (response_queue m')
               = length (response_queue m) + (if queued now e then 1 else 0)"
proof (cases e)
  case (Delivered d)
  have free: "\<forall>r. classify_response now d = Inr (Some r) \<longrightarrow> resp_service_id r \<noteq> sid"
    using assms(3) Delivered by auto
  have room: "length (response_queue m) + (if is_response now d then 1 else 0)
                < response_queue_maxsize"
    using assms(4) Delivered by simp
  from process_uncorrelated [OF assms(1,2) free room] show ?thesis
    using Delivered assms(1) by auto
next
  case (Registered s)
  then show ?thesis using assms(1,3)
    by (simp add: register_callback_def nth_append)
next
  case (Removed s)
  then show ?thesis using assms(1,3)
    by (simp add: remove_callback_def)
qed

lemma await_skip:
  assumes "c < length (closures m)"
    and "closure_service_id (closures m ! c) = sid"
    and "\<not> response_received (closures m ! c)"
    and "\<forall>e \<in> set pre. \<not> concerns now sid e"
    and "length (response_queue m) + length (filter (queued now) pre) < response_queue_maxsize"
  shows "\<exists>m'. await_response now c (pre @ rest) m = await_response now c rest m'
           \<and> c < length (closures m')
           \<and> closures m' ! c = closures m ! c
           \<and> response_callbacks m' sid = response_callbacks m sid
           \<and> length (response_queue m')
               = length (response_queue m) + length (filter (queued now) pre)"
  using assms
proof (induction pre arbitrary: m)
  case Nil
  then show ?case by auto
next
  case (Cons e pre)
  have e_free: "\<not> concerns now sid e"
    using Cons.prems(4) by simp
  have room: "length (response_queue m) + (if queued now e then 1 else 0)
                < response_queue_maxsize"
    using Cons.prems(5) by (simp split: if_splits)
  from step_unconcerned [OF Cons.prems(1,2) e_free room] obtain m1 where
    p: "session_step now e m = (Returns (), m1)"
    and len: "c < length (closures m1)"
    and cl: "closures m1 ! c = closures m ! c"
    and cb: "response_callbacks m1 sid = response_callbacks m sid"
    and ql: "length (response_queue m1)
               = length (response_queue m) + (if queued now e then 1 else 0)"
    by blast
  have "\<exists>m'. await_response now c (pre @ rest) m1 = await_response now c rest m'
           \<and> c < length (closures m')
           \<and> closures m' ! c = closures m1 ! c
           \<and> response_callbacks m' sid = response_callbacks m1 sid
           \<and> length (response_queue m')
               = length (response_queue m1) + length (filter (queued now) pre)"
    using Cons.prems len cl ql by (intro Cons.IH) (auto split: if_splits)
  then obtain m' where
    a: "await_response now c (pre @ rest) m1 = await_response now c rest m'"
    and i: "c < length (closures m')" "closures m' ! c = closures m1 ! c"
      "response_callbacks m' sid = response_callbacks m1 sid"
      "length (response_queue m')
         = length (response_queue m1) + length (filter (queued now) pre)"
    by blast
  have "\<not> received c m" using Cons.prems(3) by (simp add: received_def)
  then have "await_response now c ((e # pre) @ rest) m = await_response now c rest m'"
    using p a by simp
  with i len cl cb ql show ?case by (intro exI [of _ m']) auto
qed

lemma await_pending:
  assumes "c < length (closures m)"
    and "closures m ! c = \<lparr>closure_service_id = uint sb, response_data = [], response_received = False\<rparr>"
    and "response_callbacks m (uint sb) = Some c"
    and "length (response_queue m) < response_queue_maxsize"
  shows "fst (take_response rq c
                (await_response now c (Delivered ([0x7F, sb, 0x78] @ extra) # post) m))
           = Some \<lparr>resp_service_id = uint sb, resp_data = extra, resp_subfunction = None,
                response_code = NEGATIVE_RESPONSE, negative_response_code = Some 0x78,
                resp_timestamp = now, request = Some rq\<rparr>
         \<and> received c (await_response now c (Delivered ([0x7F, sb, 0x78] @ extra) # post) m)"
proof -
  define msg where "msg = [0x7F, sb, 0x78] @ extra"
  let ?r = "\<lparr>resp_service_id = uint sb, resp_data = extra, resp_subfunction = None,
        response_code = NEGATIVE_RESPONSE, negative_response_code = Some 0x78,
        resp_timestamp = now, request = None\<rparr>"
  let ?a = "length (responses m)"
  let ?m1 = "m\<lparr>responses := responses m @ [?r], response_queue := response_queue m @ [?a],
               closures := (closures m)
                 [c := \<lparr>closure_service_id = uint sb, response_data = [?a],
                        response_received = True\<rparr>]\<rparr>"
  have cl: "classify_response now msg = Inr (Some ?r)"
    unfolding msg_def by (rule classify_pending)
  have p: "session_step now (Delivered msg) m = (Returns (), ?m1)"
    using assms cl by (simp add: process_response_def response_callback_def Let_def)
  have nr: "\<not> received c m" using assms(2) by (simp add: received_def)
  have r1: "received c ?m1" using assms(1) by (simp add: received_def)
  have "await_response now c (Delivered msg # post) m = await_response now c post ?m1"
    using nr p by simp
  also have "\<dots> = ?m1" using r1 by (cases post) simp_all
  finally have aw: "await_response now c (Delivered msg # post) m = ?m1" .
  show ?thesis
    unfolding msg_def [symmetric] aw using r1 assms(1) by (simp add: take_response_def Let_def)
qed

lemma send_request_wait:
  assumes "expect_response rq"
    and "encode rq = Inr request_data"
    and "fst (manager_send_data now request_data False po) = Returns True"
    and "received (length (closures m))
           (await_response now (length (closures m)) events
              (register_callback (req_service_id rq) m))"
  shows "fst (send_request_among now rq events po m) =
           Returns (fst (take_response rq (length (closures m))
             (await_response now (length (closures m)) events
                (register_callback (req_service_id rq) m))))"
proof -
  obtain po1 where s: "manager_send_data now request_data False po = (Returns True, po1)"
    using assms(3) by (cases "manager_send_data now request_data False po") auto
  show ?thesis
    using assms(1,2,4) s by (simp add: send_request_among_def Let_def split: prod.splits)
qed

text \<open>
  C2, amended. A call of \<open>send_request\<close> for a request that expects a response, that
  encodes and that ISO-TP has accepted, returns the negative response \<open>7F SID 78\<close>
  itself, polarity negative and NRC 0x78, with the request attached, whatever happens
  later, provided that this message is the first event of the wait that concerns the
  service id of the request (before it no response for that service id arrives and no
  other call registers or removes a callback under that service id), and that the response
  queue, which holds 100 entries and is emptied only by \<open>close\<close>, has room left after the
  responses that arrive before it. The wait is not started again.
\<close>

theorem send_request_returns_pending:
  assumes "expect_response rq"
    and "encode rq = Inr request_data"
    and "fst (manager_send_data now request_data False po) = Returns True"
    and "req_service_id rq = uint sb"
    and "\<forall>e \<in> set pre. \<not> concerns now (uint sb) e"
    and "length (response_queue m) + length (filter (queued now) pre) < response_queue_maxsize"
  shows "fst (send_request_among now rq (pre @ Delivered ([0x7F, sb, 0x78] @ extra) # post) po m) =
     Returns (Some \<lparr>resp_service_id = uint sb, resp_data = extra, resp_subfunction = None,
        response_code = NEGATIVE_RESPONSE,
        negative_response_code = Some REQUEST_CORRECTLY_RECEIVED_RESPONSE_PENDING,
        resp_timestamp = now, request = Some rq\<rparr>)"
proof -
  define c where "c = length (closures m)"
  define m1 where "m1 = register_callback (req_service_id rq) m"
  define msg where "msg = [0x7F, sb, 0x78] @ extra"
  have c1: "c < length (closures m1)" by (simp add: c_def m1_def register_callback_def)
  have c2: "closures m1 ! c
              = \<lparr>closure_service_id = uint sb, response_data = [], response_received = False\<rparr>"
    by (simp add: c_def m1_def assms(4) register_callback_def)
  have c3: "response_callbacks m1 (uint sb) = Some c"
    by (simp add: c_def m1_def assms(4) register_callback_def)
  have c4: "length (response_queue m1) = length (response_queue m)"
    by (simp add: m1_def register_callback_def)
  obtain m' where
    a: "await_response now c (pre @ Delivered msg # post) m1
          = await_response now c (Delivered msg # post) m'"
    and i: "c < length (closures m')" "closures m' ! c = closures m1 ! c"
      "response_callbacks m' (uint sb) = response_callbacks m1 (uint sb)"
      "length (response_queue m')
         = length (response_queue m1) + length (filter (queued now) pre)"
    using await_skip [of c m1 "uint sb" pre now "Delivered msg # post"] c1 c2 c4 assms(5,6)
    by auto
  have t: "fst (take_response rq c (await_response now c (Delivered msg # post) m'))
           = Some \<lparr>resp_service_id = uint sb, resp_data = extra, resp_subfunction = None,
                response_code = NEGATIVE_RESPONSE, negative_response_code = Some 0x78,
                resp_timestamp = now, request = Some rq\<rparr>
         \<and> received c (await_response now c (Delivered msg # post) m')"
    unfolding msg_def using i c1 c2 c3 c4 assms(6) by (intro await_pending) auto
  have "fst (send_request_among now rq (pre @ Delivered msg # post) po m) =
           Returns (fst (take_response rq c (await_response now c (pre @ Delivered msg # post) m1)))"
    unfolding c_def m1_def
    by (rule send_request_wait [OF assms(1,2,3)]) (use t a in \<open>simp add: c_def m1_def\<close>)
  also have "\<dots> = Returns (fst (take_response rq c (await_response now c (Delivered msg # post) m')))"
    by (simp only: a)
  also have "\<dots> = Returns (Some \<lparr>resp_service_id = uint sb, resp_data = extra,
                resp_subfunction = None, response_code = NEGATIVE_RESPONSE,
                negative_response_code = Some 0x78, resp_timestamp = now, request = Some rq\<rparr>)"
    by (simp only: conjunct1 [OF t])
  finally show ?thesis
    unfolding msg_def REQUEST_CORRECTLY_RECEIVED_RESPONSE_PENDING_def .
qed

theorem send_request_returns_pending_witness:
  "expect_response start_routine
   \<and> encode start_routine = Inr [0x31, 0x01, 0xFF, 0x00]
   \<and> fst (manager_send_data 0 [0x31, 0x01, 0xFF, 0x00] False
            (Some (init_protocol default_config))) = Returns True
   \<and> req_service_id start_routine = uint (0x31 :: byte)
   \<and> \<not> concerns 0 (uint (0x31 :: byte)) (Delivered [0x7F, 0x22, 0x31])
   \<and> \<not> concerns 0 (uint (0x31 :: byte)) (Registered 0x22)
   \<and> \<not> concerns 0 (uint (0x31 :: byte)) (Removed 0x22)
   \<and> length (response_queue init_session)
       + length (filter (queued 0) [Delivered [0x7F, 0x22, 0x31], Registered 0x22, Removed 0x22])
       < response_queue_maxsize
   \<and> fst (send_request_among 0 start_routine
            ([Delivered [0x7F, 0x22, 0x31], Registered 0x22, Removed 0x22]
               @ Delivered ([0x7F, 0x31, 0x78] @ []) # [Delivered [0x71, 0x01, 0xFF, 0x00]])
            (Some (init_protocol default_config)) init_session)
     = Returns (Some \<lparr>resp_service_id = 0x31, resp_data = [], resp_subfunction = None,
                      response_code = NEGATIVE_RESPONSE, negative_response_code = Some 0x78,
                      resp_timestamp = 0, request = Some start_routine\<rparr>)"
proof -
  have h1: "expect_response start_routine" by (simp add: start_routine_def)
  have h2: "encode start_routine = Inr [0x31, 0x01, 0xFF, 0x00]" by code_simp
  have h3: "fst (manager_send_data 0 [0x31, 0x01, 0xFF, 0x00] False
                   (Some (init_protocol default_config))) = Returns True"
    by code_simp
  have h4: "req_service_id start_routine = uint (0x31 :: byte)" by (simp add: start_routine_def)
  have h5: "\<forall>e \<in> set [Delivered [0x7F, 0x22, 0x31], Registered 0x22, Removed 0x22].
              \<not> concerns 0 (uint (0x31 :: byte)) e"
    by (simp add: classify_response_def bind_e_def byte_at_def UDSNegativeResponseCode_of_def
        negative_response_codes_def)
  have h6: "length (response_queue init_session)
              + length (filter (queued 0) [Delivered [0x7F, 0x22, 0x31], Registered 0x22, Removed 0x22])
              < response_queue_maxsize"
    by (simp add: init_session_def response_queue_maxsize_def)
  show ?thesis
    using send_request_returns_pending [OF h1 h2 h3 h4 h5 h6, of "[]" "[Delivered [0x71, 0x01, 0xFF, 0x00]]"]
      h1 h2 h3 h4 h5 h6
    by (simp add: REQUEST_CORRECTLY_RECEIVED_RESPONSE_PENDING_def del: concerns.simps)
qed

text \<open>
  Both provisos are needed: with the queue full the response thread never gets to the
  callback, and a callback removed by another call that ends is not called; either way
  the call runs into its timeout.
\<close>

lemma send_request_queue_full:
  "fst (send_request 0 start_routine (replicate 100 [0x7F, 0x22, 0x31] @ [[0x7F, 0x31, 0x78]])
          (Some (init_protocol default_config)) init_session) = Returns None"
  by code_simp

lemma send_request_callback_removed:
  "fst (send_request_among 0 start_routine [Removed 0x31, Delivered [0x7F, 0x31, 0x78]]
          (Some (init_protocol default_config)) init_session) = Returns None"
  by code_simp

subsection \<open>The command executor\<close>


text \<open>
  A command sent periodically is counted by its thread as well: run once by the control
  task, with one pass of the thread's loop before the control task updates the counters,
  its \<open>execution_count\<close> is 2. The passes of a group are therefore counted below by the
  starts of its commands.
\<close>

lemma periodic_command_counted_by_its_thread:
  "map_option (\<lambda>s. (execution_count (command_at s 0 0), filter is_command_started (trace s)))
     (execute_project 1 (thread_runs_at 3) beacon_started)
   = Some (2, [Command_started ''c2''])"
  by code_simp

subsubsection \<open>What the steps leave alone\<close>

lemma update_command_fields [simp]:
  "checks (update_command gi ci f s) = checks s"
  "trace (update_command gi ci f s) = trace s"
  "yields (update_command gi ci f s) = yields s"
  by (simp_all add: update_command_def split: option.splits)

lemma shape_update_command:
  assumes "\<And>c. command_shape (f c) = command_shape c"
  shows "shape (update_command gi ci f s) = shape s"
proof (cases "current_project s")
  case None
  then show ?thesis by (simp add: update_command_def)
next
  case (Some p)
  show ?thesis
  proof (cases "gi < length (groups p) \<and> ci < length (commands (groups p ! gi))")
    case False
    then show ?thesis using Some by (auto simp add: update_command_def)
  next
    case True
    let ?g = "groups p ! gi"
    have "map command_shape ((commands ?g)[ci := f (commands ?g ! ci)])
            = map command_shape (commands ?g)"
      using True assms by (simp add: map_update list_update_same_conv)
    then have "group_shape (?g\<lparr>commands := (commands ?g)[ci := f (commands ?g ! ci)]\<rparr>)
                 = group_shape ?g"
      by (simp add: group_shape_def)
    then have "map group_shape ((groups p)[gi := ?g\<lparr>commands := (commands ?g)[ci := f (commands ?g ! ci)]\<rparr>])
                 = map group_shape (groups p)"
      using True by (simp add: map_update list_update_same_conv)
    then show ?thesis
      using Some True by (simp add: update_command_def shape_def project_groups_def)
  qed
qed

lemma shape_fields [simp]:
  "shape (s\<lparr>running := a\<rparr>) = shape s"
  "shape (s\<lparr>current_group := b\<rparr>) = shape s"
  "shape (s\<lparr>current_command := c\<rparr>) = shape s"
  "shape (s\<lparr>threads := d\<rparr>) = shape s"
  "shape (s\<lparr>periodic_threads := e\<rparr>) = shape s"
  "shape (s\<lparr>checks := f\<rparr>) = shape s"
  "shape (s\<lparr>yields := g\<rparr>) = shape s"
  "shape (s\<lparr>trace := h\<rparr>) = shape s"
  "shape (s\<lparr>periodic_log := i\<rparr>) = shape s"
  by (simp_all add: shape_def project_groups_def)

lemma thread_step_fields [simp]:
  "checks (thread_step env t s) = checks s"
  "trace (thread_step env t s) = trace s"
  by (simp_all add: thread_step_def set_phase_def periodic_can_tick_def periodic_uds_tick_def
      Let_def split: thread_phase.splits periodic_job.splits)

lemma shape_thread_step [simp]: "shape (thread_step env t s) = shape s"
  by (simp add: thread_step_def set_phase_def periodic_can_tick_def periodic_uds_tick_def
      Let_def shape_update_command command_shape_def split: thread_phase.splits periodic_job.splits)

lemma fold_thread_steps:
  "checks (fold (thread_step env) ts s) = checks s
   \<and> trace (fold (thread_step env) ts s) = trace s
   \<and> shape (fold (thread_step env) ts s) = shape s"
  by (induction ts arbitrary: s) simp_all

lemma yield_fields [simp]:
  "checks (yield env s) = checks s"
  "trace (yield env s) = trace s"
  "shape (yield env s) = shape s"
  using fold_thread_steps [of env "schedule env (yields s)" "s\<lparr>yields := Suc (yields s)\<rparr>"]
  by (simp_all add: yield_def)

lemma is_set_fields [simp]:
  "fst (is_set env s) = stop_set env (checks s)"
  "checks (snd (is_set env s)) = Suc (checks s)"
  "trace (snd (is_set env s)) = trace s"
  "shape (snd (is_set env s)) = shape s"
  by (simp_all add: is_set_def Let_def)

lemma emit_fields [simp]:
  "checks (emit e s) = checks s"
  "trace (emit e s) = trace s @ [e]"
  "shape (emit e s) = shape s"
  by (simp_all add: emit_def)

lemma sleep_fields [simp]:
  "checks (sleep env ms s) = checks s"
  "trace (sleep env ms s) = trace s @ [Slept ms]"
  "shape (sleep env ms s) = shape s"
  by (simp_all add: sleep_def)

lemma spawn_fields [simp]:
  "checks (spawn i th s) = checks s"
  "trace (spawn i th s) = trace s"
  "shape (spawn i th s) = shape s"
  by (simp_all add: spawn_def)

lemma execute_command_fields:
  "checks (snd (execute_command env gi ci s)) = checks s
   \<and> shape (snd (execute_command env gi ci s)) = shape s
   \<and> filter is_command_started (trace (snd (execute_command env gi ci s)))
       = filter is_command_started (trace s)"
  by (simp add: execute_command_def execute_can_frame_command_def execute_uds_command_def
      execute_wait_command_def Let_def split: option.splits SendMode.splits)

lemma run_command_fields:
  "checks (run_command env gi ci s) = checks s
   \<and> shape (run_command env gi ci s) = shape s
   \<and> filter is_command_started (trace (run_command env gi ci s))
       = filter is_command_started (trace s) @ [Command_started (cmd_id (command_at s gi ci))]"
proof -
  let ?s1 = "emit (Command_started (cmd_id (command_at s gi ci))) (s\<lparr>current_command := Some (gi, ci)\<rparr>)"
  obtain ok s2 where e: "execute_command env gi ci ?s1 = (ok, s2)"
    by (cases "execute_command env gi ci ?s1")
  have f: "checks s2 = checks ?s1" "shape s2 = shape ?s1"
    "filter is_command_started (trace s2) = filter is_command_started (trace ?s1)"
    using execute_command_fields [of env gi ci ?s1] e by simp_all
  show ?thesis
    using f by (simp add: run_command_def Let_def e shape_update_command command_shape_def)
qed


subsubsection \<open>What the shape fixes\<close>

lemma shape_group:
  assumes "shape s' = shape s" and "gi < length (project_groups s)"
  shows "gi < length (project_groups s')"
    and "group_shape (group_at s' gi) = group_shape (group_at s gi)"
proof -
  have len: "length (project_groups s') = length (project_groups s)"
    using assms(1) unfolding shape_def by (rule map_eq_imp_length_eq)
  then show "gi < length (project_groups s')" using assms(2) by simp
  have "map group_shape (project_groups s') ! gi = map group_shape (project_groups s) ! gi"
    using assms(1) by (simp add: shape_def)
  then show "group_shape (group_at s' gi) = group_shape (group_at s gi)"
    using assms(2) len by (simp add: group_at_def)
qed

lemma group_shape_settings:
  assumes "group_shape g' = group_shape g"
  shows "grp_id g' = grp_id g" and "grp_enabled g' = grp_enabled g"
    and "repeat_count g' = repeat_count g" and "repeat_interval g' = repeat_interval g"
    and "length (commands g') = length (commands g)"
    and "starts_of g' = starts_of g"
proof -
  from assms have m: "map command_shape (commands g') = map command_shape (commands g)"
    and "grp_id g' = grp_id g" "grp_enabled g' = grp_enabled g"
    "repeat_count g' = repeat_count g" "repeat_interval g' = repeat_interval g"
    by (simp_all add: group_shape_def)
  then show "grp_id g' = grp_id g" "grp_enabled g' = grp_enabled g"
    "repeat_count g' = repeat_count g" "repeat_interval g' = repeat_interval g"
    by simp_all
  show "length (commands g') = length (commands g)"
    using m by (rule map_eq_imp_length_eq)
  have "starts_of h = map (\<lambda>x. Command_started (fst x)) (filter snd (map command_shape (commands h)))"
    for h
    by (simp add: starts_of_def filter_map comp_def command_shape_def)
  then show "starts_of g' = starts_of g" using m by simp
qed

lemma shape_command:
  assumes "shape s' = shape s" and "gi < length (project_groups s)"
    and "ci < length (commands (group_at s gi))"
  shows "cmd_enabled (command_at s' gi ci) = cmd_enabled (command_at s gi ci)"
    and "cmd_id (command_at s' gi ci) = cmd_id (command_at s gi ci)"
proof -
  have g: "group_shape (group_at s' gi) = group_shape (group_at s gi)"
    using shape_group(2) [OF assms(1,2)] .
  then have m: "map command_shape (commands (group_at s' gi))
                  = map command_shape (commands (group_at s gi))"
    by (simp add: group_shape_def)
  have len: "length (commands (group_at s' gi)) = length (commands (group_at s gi))"
    using m by (rule map_eq_imp_length_eq)
  have "map command_shape (commands (group_at s' gi)) ! ci
          = map command_shape (commands (group_at s gi)) ! ci"
    using m by simp
  then have "command_shape (command_at s' gi ci) = command_shape (command_at s gi ci)"
    using assms(3) len by (simp add: command_at_def)
  then show "cmd_enabled (command_at s' gi ci) = cmd_enabled (command_at s gi ci)"
    and "cmd_id (command_at s' gi ci) = cmd_id (command_at s gi ci)"
    by (simp_all add: command_shape_def)
qed

lemma positions_starts:
  "map (\<lambda>i. Command_started (cmd_id (xs ! i))) (filter (\<lambda>i. cmd_enabled (xs ! i)) [0 ..< length xs])
     = map (\<lambda>c. Command_started (cmd_id c)) (filter cmd_enabled xs)"
proof -
  have "map (\<lambda>c. Command_started (cmd_id c)) (filter cmd_enabled (map ((!) xs) [0 ..< length xs]))
          = map (\<lambda>i. Command_started (cmd_id (xs ! i)))
              (filter (\<lambda>i. cmd_enabled (xs ! i)) [0 ..< length xs])"
    by (simp only: filter_map map_map comp_def)
  then show ?thesis by (simp only: map_nth)
qed

subsubsection \<open>The loop over the commands\<close>

lemma run_commands_shape: "shape (run_commands env gi ps s) = shape s"
proof (induction ps arbitrary: s)
  case Nil
  then show ?case by simp
next
  case (Cons ci ps)
  have a: "shape (snd (is_set env (run_command env gi ci (snd (is_set env s))))) = shape s"
    using run_command_fields [of env gi ci "snd (is_set env s)"] by simp
  show ?case
    using a by (simp add: Cons.IH case_prod_beta)
qed

lemma run_commands_checks: "checks s \<le> checks (run_commands env gi ps s)"
proof (induction ps arbitrary: s)
  case Nil
  then show ?case by simp
next
  case (Cons ci ps)
  have a: "checks s \<le> checks (run_commands env gi ps (snd (is_set env s)))"
    using Cons.IH [of "snd (is_set env s)"] by simp
  have b: "checks s \<le> checks (run_commands env gi ps
             (snd (is_set env (run_command env gi ci (snd (is_set env s))))))"
    using Cons.IH [of "snd (is_set env (run_command env gi ci (snd (is_set env s))))"]
      run_command_fields [of env gi ci "snd (is_set env s)"] by simp
  show ?case
    using a b Cons.IH [of s] run_command_fields [of env gi ci "snd (is_set env s)"]
    by (simp add: case_prod_beta)
qed

lemma run_commands_starts:
  assumes "\<forall>j. checks s \<le> j \<and> j < checks (run_commands env gi ps s) \<longrightarrow> \<not> stop_set env j"
    and "gi < length (project_groups s)"
    and "\<forall>ci \<in> set ps. ci < length (commands (group_at s gi))"
  shows "filter is_command_started (trace (run_commands env gi ps s))
           = filter is_command_started (trace s)
             @ map (\<lambda>ci. Command_started (cmd_id (command_at s gi ci)))
                 (filter (\<lambda>ci. cmd_enabled (command_at s gi ci)) ps)"
  using assms
proof (induction ps arbitrary: s)
  case Nil
  then show ?case by simp
next
  case (Cons ci ps)
  show ?case
  proof (cases "cmd_enabled (command_at s gi ci)")
    case False
    then show ?thesis using Cons.IH [of s] Cons.prems by simp
  next
    case True
    define s1 where "s1 = snd (is_set env s)"
    define s3 where "s3 = snd (is_set env (run_command env gi ci s1))"
    define r where "r = run_commands env gi (ci # ps) s"
    have c1: "checks s1 = Suc (checks s)" by (simp add: s1_def)
    have c3: "checks s3 = Suc (Suc (checks s))"
      using run_command_fields [of env gi ci s1] c1 by (simp add: s3_def)
    have r_eq: "r = (if stop_set env (checks s) then run_commands env gi ps s1
                     else if stop_set env (Suc (checks s)) then s3
                     else run_commands env gi ps s3)"
      using True run_command_fields [of env gi ci s1] c1
      by (simp add: r_def case_prod_beta s1_def s3_def)
    have free: "\<not> stop_set env j" if "checks s \<le> j" "j < checks r" for j
      using Cons.prems(1) that by (simp add: r_def)
    have "Suc (checks s) \<le> checks r"
      using r_eq run_commands_checks [of s1 env gi ps] run_commands_checks [of s3 env gi ps] c1 c3
      by (simp split: if_splits)
    then have top: "\<not> stop_set env (checks s)" using free [of "checks s"] by simp
    then have "Suc (Suc (checks s)) \<le> checks r"
      using r_eq run_commands_checks [of s3 env gi ps] c3 by (simp split: if_splits)
    then have after: "\<not> stop_set env (Suc (checks s))" using free [of "Suc (checks s)"] by simp
    have r3: "r = run_commands env gi ps s3" using r_eq top after by simp
    have sh1: "shape s1 = shape s" by (simp add: s1_def)
    have sh3: "shape s3 = shape s"
      using run_command_fields [of env gi ci s1] sh1 by (simp add: s3_def)
    have in3: "gi < length (project_groups s3)"
      using shape_group(1) [OF sh3 Cons.prems(2)] .
    have len3: "length (commands (group_at s3 gi)) = length (commands (group_at s gi))"
      using group_shape_settings(5) [OF shape_group(2) [OF sh3 Cons.prems(2)]] .
    have id1: "cmd_id (command_at s1 gi ci) = cmd_id (command_at s gi ci)"
      using shape_command(2) [OF sh1 Cons.prems(2)] Cons.prems(3) by simp
    have t3: "filter is_command_started (trace s3)
                = filter is_command_started (trace s) @ [Command_started (cmd_id (command_at s gi ci))]"
      using run_command_fields [of env gi ci s1] id1 by (simp add: s3_def s1_def)
    have same: "map (\<lambda>cj. Command_started (cmd_id (command_at s3 gi cj)))
                  (filter (\<lambda>cj. cmd_enabled (command_at s3 gi cj)) ps)
                = map (\<lambda>cj. Command_started (cmd_id (command_at s gi cj)))
                  (filter (\<lambda>cj. cmd_enabled (command_at s gi cj)) ps)"
    proof -
      have "cmd_enabled (command_at s3 gi cj) = cmd_enabled (command_at s gi cj)
            \<and> cmd_id (command_at s3 gi cj) = cmd_id (command_at s gi cj)"
        if "cj \<in> set ps" for cj
        using shape_command [OF sh3 Cons.prems(2), of cj] Cons.prems(3) that by simp
      then show ?thesis
        by (intro map_cong filter_cong) auto
    qed
    have free3: "\<forall>j. checks s3 \<le> j \<and> j < checks (run_commands env gi ps s3) \<longrightarrow> \<not> stop_set env j"
      using free c3 r3 by simp
    have ih: "filter is_command_started (trace (run_commands env gi ps s3))
                = filter is_command_started (trace s3)
                  @ map (\<lambda>cj. Command_started (cmd_id (command_at s3 gi cj)))
                      (filter (\<lambda>cj. cmd_enabled (command_at s3 gi cj)) ps)"
      using Cons.prems(3) len3 by (intro Cons.IH [OF free3 in3]) simp
    show ?thesis using ih t3 same True r3 by (simp add: r_def)
  qed
qed

lemma run_commands_stopped:
  assumes "\<forall>j \<ge> checks s. stop_set env j"
  shows "trace (run_commands env gi ps s) = trace s"
  using assms
proof (induction ps arbitrary: s)
  case Nil
  then show ?case by simp
next
  case (Cons ci ps)
  have "trace (run_commands env gi ps (snd (is_set env s))) = trace (snd (is_set env s))"
    using Cons.prems by (intro Cons.IH) simp
  then show ?case using Cons.IH [of s] Cons.prems by (simp add: case_prod_beta)
qed

subsubsection \<open>Passes\<close>

lemma pass_shape [simp]: "shape (pass env gi s) = shape s"
  by (simp add: pass_def run_commands_shape)

lemma pass_pow_shape [simp]: "shape ((pass env gi ^^ n) s) = shape s"
  by (induction n) simp_all

lemma pass_checks: "checks s < checks (pass env gi s)"
  using run_commands_checks [of "snd (is_set env s)" env gi "command_positions (snd (is_set env s)) gi"]
  by (simp add: pass_def)

lemma pass_pow_checks: "checks s \<le> checks ((pass env gi ^^ n) s)"
proof (induction n)
  case 0
  then show ?case by simp
next
  case (Suc n)
  then show ?case using pass_checks [of "(pass env gi ^^ n) s" env gi] by simp
qed

lemma pass_starts:
  assumes "\<forall>j. checks s \<le> j \<and> j < checks (pass env gi s) \<longrightarrow> \<not> stop_set env j"
    and "gi < length (project_groups s)"
  shows "filter is_command_started (trace (pass env gi s))
           = filter is_command_started (trace s) @ starts_of (group_at s gi)"
proof -
  define s1 where "s1 = snd (is_set env s)"
  have sh: "shape s1 = shape s" by (simp add: s1_def)
  have in1: "gi < length (project_groups s1)" using shape_group(1) [OF sh assms(2)] .
  have free: "\<forall>j. checks s1 \<le> j \<and> j < checks (run_commands env gi (command_positions s1 gi) s1)
                \<longrightarrow> \<not> stop_set env j"
    using assms(1) by (simp add: pass_def s1_def)
  have "filter is_command_started (trace (run_commands env gi (command_positions s1 gi) s1))
          = filter is_command_started (trace s1)
            @ map (\<lambda>ci. Command_started (cmd_id (command_at s1 gi ci)))
                (filter (\<lambda>ci. cmd_enabled (command_at s1 gi ci)) (command_positions s1 gi))"
    by (rule run_commands_starts [OF free in1]) (simp add: command_positions_def)
  also have "map (\<lambda>ci. Command_started (cmd_id (command_at s1 gi ci)))
                (filter (\<lambda>ci. cmd_enabled (command_at s1 gi ci)) (command_positions s1 gi))
             = starts_of (group_at s1 gi)"
    unfolding command_positions_def command_at_def starts_of_def by (rule positions_starts)
  also have "starts_of (group_at s1 gi) = starts_of (group_at s gi)"
    using group_shape_settings(6) [OF shape_group(2) [OF sh assms(2)]] .
  finally show ?thesis by (simp add: pass_def s1_def)
qed

lemma concat_replicate_snoc: "concat (replicate (Suc n) x) = concat (replicate n x) @ x"
  by (induction n) simp_all

lemma pass_pow_starts:
  assumes "\<forall>j. checks s \<le> j \<and> j < checks ((pass env gi ^^ n) s) \<longrightarrow> \<not> stop_set env j"
    and "gi < length (project_groups s)"
  shows "filter is_command_started (trace ((pass env gi ^^ n) s))
           = filter is_command_started (trace s) @ concat (replicate n (starts_of (group_at s gi)))"
  using assms(1)
proof (induction n)
  case 0
  then show ?case by simp
next
  case (Suc n)
  let ?sn = "(pass env gi ^^ n) s"
  have sh: "shape ?sn = shape s" by simp
  have inn: "gi < length (project_groups ?sn)" using shape_group(1) [OF sh assms(2)] .
  have st: "starts_of (group_at ?sn gi) = starts_of (group_at s gi)"
    using group_shape_settings(6) [OF shape_group(2) [OF sh assms(2)]] .
  have lo: "checks s \<le> checks ?sn" by (rule pass_pow_checks)
  have hi: "checks ?sn < checks (pass env gi ?sn)" by (rule pass_checks)
  have free: "\<not> stop_set env j" if "checks s \<le> j" "j < checks (pass env gi ?sn)" for j
    using Suc.prems that by simp
  have "\<forall>j. checks s \<le> j \<and> j < checks ?sn \<longrightarrow> \<not> stop_set env j"
    using free hi by auto
  then have ih: "filter is_command_started (trace ?sn)
           = filter is_command_started (trace s) @ concat (replicate n (starts_of (group_at s gi)))"
    by (rule Suc.IH)
  have "\<forall>j. checks ?sn \<le> j \<and> j < checks (pass env gi ?sn) \<longrightarrow> \<not> stop_set env j"
    using free lo by auto
  then have "filter is_command_started (trace (pass env gi ?sn))
          = filter is_command_started (trace ?sn) @ starts_of (group_at ?sn gi)"
    using inn by (rule pass_starts)
  then show ?case
    using ih st by (simp add: concat_replicate_snoc del: replicate_Suc replicate.simps)
qed


subsubsection \<open>The while loop\<close>

lemma group_loop_top_stop:
  assumes "stop_set env (checks s)"
    and "k < repeat_count (group_at s gi) \<or> repeat_count (group_at s gi) = 0"
  shows "group_loop (Suc fuel) env gi k s = Some (snd (is_set env s))"
  using assms by (simp add: case_prod_beta)

lemma group_loop_step:
  assumes "gi < length (project_groups s)"
    and "\<not> stop_set env (checks s)"
    and "k < repeat_count (group_at s gi) \<or> repeat_count (group_at s gi) = 0"
  shows "group_loop (Suc fuel) env gi k s =
           (if repeat_count (group_at s gi) > 0 \<and> k + 1 \<ge> repeat_count (group_at s gi)
            then Some (pass env gi s)
            else group_loop fuel env gi (k + 1) (pass env gi s))"
proof -
  have "repeat_count (group_at (pass env gi s) gi) = repeat_count (group_at s gi)"
    using group_shape_settings(3) [OF shape_group(2) [OF pass_shape assms(1)]] .
  then show ?thesis
    using assms(2,3) by (simp add: case_prod_beta Let_def pass_def [symmetric])
qed

lemma group_loop_exact:
  assumes "gi < length (project_groups s)"
    and "0 \<le> k" and "k < repeat_count (group_at s gi)"
    and "nat (repeat_count (group_at s gi) - k) \<le> fuel"
    and "\<forall>i < nat (repeat_count (group_at s gi) - k). \<not> stop_set env (checks ((pass env gi ^^ i) s))"
  shows "group_loop fuel env gi k s
           = Some ((pass env gi ^^ nat (repeat_count (group_at s gi) - k)) s)"
  using assms
proof (induction fuel arbitrary: k s)
  case 0
  then show ?case by simp
next
  case (Suc fuel)
  let ?rc = "repeat_count (group_at s gi)"
  have "0 < nat (?rc - k)" using Suc.prems(3) by simp
  then have top: "\<not> stop_set env (checks s)" using Suc.prems(5) by (auto dest: spec [of _ 0])
  have step: "group_loop (Suc fuel) env gi k s =
           (if ?rc > 0 \<and> k + 1 \<ge> ?rc then Some (pass env gi s)
            else group_loop fuel env gi (k + 1) (pass env gi s))"
    using group_loop_step [OF Suc.prems(1) top, of k fuel] Suc.prems(3) by simp
  show ?case
  proof (cases "k + 1 \<ge> ?rc")
    case True
    with Suc.prems(3) have "nat (?rc - k) = 1" by simp
    then show ?thesis using step True Suc.prems(2,3) by simp
  next
    case False
    let ?s' = "pass env gi s"
    have in': "gi < length (project_groups ?s')"
      using shape_group(1) [OF pass_shape Suc.prems(1)] .
    have rc': "repeat_count (group_at ?s' gi) = ?rc"
      using group_shape_settings(3) [OF shape_group(2) [OF pass_shape Suc.prems(1)]] .
    have later: "\<forall>i < nat (repeat_count (group_at ?s' gi) - (k + 1)).
                   \<not> stop_set env (checks ((pass env gi ^^ i) ?s'))"
    proof (intro allI impI)
      fix i assume "i < nat (repeat_count (group_at ?s' gi) - (k + 1))"
      then have "Suc i < nat (?rc - k)" using rc' by simp
      then have "\<not> stop_set env (checks ((pass env gi ^^ Suc i) s))"
        using Suc.prems(5) by blast
      then show "\<not> stop_set env (checks ((pass env gi ^^ i) ?s'))"
        by (simp add: funpow_swap1)
    qed
    have "group_loop fuel env gi (k + 1) ?s'
            = Some ((pass env gi ^^ nat (repeat_count (group_at ?s' gi) - (k + 1))) ?s')"
      using False Suc.prems(2,4) rc' later by (intro Suc.IH [OF in']) simp_all
    also have "(pass env gi ^^ nat (repeat_count (group_at ?s' gi) - (k + 1))) ?s'
                 = (pass env gi ^^ Suc (nat (?rc - (k + 1)))) s"
      by (simp add: rc' funpow_swap1)
    also have "Suc (nat (?rc - (k + 1))) = nat (?rc - k)" using False by simp
    finally show ?thesis using step False by simp
  qed
qed

lemma group_loop_unbounded:
  assumes "\<forall>j. \<not> stop_set env j"
    and "gi < length (project_groups s)"
    and "repeat_count (group_at s gi) = 0"
  shows "group_loop fuel env gi k s = None"
  using assms(2-)
proof (induction fuel arbitrary: k s)
  case 0
  then show ?case by simp
next
  case (Suc fuel)
  let ?s' = "pass env gi s"
  have in': "gi < length (project_groups ?s')"
    using shape_group(1) [OF pass_shape Suc.prems(1)] .
  have rc': "repeat_count (group_at ?s' gi) = 0"
    using group_shape_settings(3) [OF shape_group(2) [OF pass_shape Suc.prems(1)]] Suc.prems(2)
    by simp
  have "group_loop (Suc fuel) env gi k s = group_loop fuel env gi (k + 1) ?s'"
    using group_loop_step [OF Suc.prems(1), of env k fuel] assms(1) Suc.prems(2) by simp
  then show ?case using Suc.IH [OF in' rc'] by simp
qed

lemma group_loop_cancelled:
  assumes "gi < length (project_groups s)"
    and "repeat_count (group_at s gi) = 0 \<or> k + int n < repeat_count (group_at s gi)"
    and "0 \<le> k"
    and "n < fuel"
    and "\<forall>i < n. \<not> stop_set env (checks ((pass env gi ^^ i) s))"
    and "stop_set env (checks ((pass env gi ^^ n) s))"
  shows "group_loop fuel env gi k s = Some (snd (is_set env ((pass env gi ^^ n) s)))"
  using assms
proof (induction n arbitrary: k s fuel)
  case 0
  then obtain f where f: "fuel = Suc f" by (cases fuel) auto
  show ?case
    unfolding f using "0.prems"(2,3,6) by (intro group_loop_top_stop [THEN trans]) auto
next
  case (Suc n)
  then obtain f where f: "fuel = Suc f" and nf: "n < f" by (cases fuel) auto
  let ?rc = "repeat_count (group_at s gi)"
  let ?s' = "pass env gi s"
  have top: "\<not> stop_set env (checks s)" using Suc.prems(5) by (auto dest: spec [of _ 0])
  have cond: "k < ?rc \<or> ?rc = 0" using Suc.prems(2,3) by auto
  have nobreak: "\<not> (?rc > 0 \<and> k + 1 \<ge> ?rc)" using Suc.prems(2) by auto
  have step: "group_loop (Suc f) env gi k s = group_loop f env gi (k + 1) ?s'"
    using group_loop_step [OF Suc.prems(1) top cond, of f] nobreak by simp
  have in': "gi < length (project_groups ?s')"
    using shape_group(1) [OF pass_shape Suc.prems(1)] .
  have rc': "repeat_count (group_at ?s' gi) = ?rc"
    using group_shape_settings(3) [OF shape_group(2) [OF pass_shape Suc.prems(1)]] .
  have later: "\<forall>i < n. \<not> stop_set env (checks ((pass env gi ^^ i) ?s'))"
  proof (intro allI impI)
    fix i assume "i < n"
    then have "\<not> stop_set env (checks ((pass env gi ^^ Suc i) s))"
      using Suc.prems(5) by (simp del: funpow.simps)
    then show "\<not> stop_set env (checks ((pass env gi ^^ i) ?s'))"
      by (simp add: funpow_swap1)
  qed
  have last: "stop_set env (checks ((pass env gi ^^ n) ?s'))"
    using Suc.prems(6) by (simp add: funpow_swap1)
  have "group_loop f env gi (k + 1) ?s' = Some (snd (is_set env ((pass env gi ^^ n) ?s')))"
    using Suc.prems(2,3) rc' nf later last by (intro Suc.IH [OF in']) auto
  then show ?case unfolding f step by (simp add: funpow_swap1)
qed

subsubsection \<open>The loop over the groups\<close>

lemma after_group_trace:
  "trace (after_group env gi s)
     = trace s @ (if repeat_interval (group_at s gi) > 0 \<and> \<not> stop_set env (checks s)
                  then [Slept (repeat_interval (group_at (snd (is_set env s)) gi))] else [])"
  by (simp add: after_group_def case_prod_beta)

lemma group_loop_shape:
  "group_loop fuel env gi k s = Some s' \<Longrightarrow> shape s' = shape s"
proof (induction fuel arbitrary: k s)
  case 0
  then show ?case by simp
next
  case (Suc fuel)
  show ?case
  proof (cases "k < repeat_count (group_at s gi) \<or> repeat_count (group_at s gi) = 0")
    case False
    then show ?thesis using Suc.prems by simp
  next
    case True
    show ?thesis
    proof (cases "stop_set env (checks s)")
      case True
      then show ?thesis using Suc.prems \<open>k < repeat_count (group_at s gi) \<or> repeat_count (group_at s gi) = 0\<close>
        by (auto simp: case_prod_beta)
    next
      case False
      let ?s2 = "run_commands env gi (command_positions (snd (is_set env s)) gi) (snd (is_set env s))"
      have sh2: "shape ?s2 = shape s" by (simp add: run_commands_shape)
      show ?thesis
      proof (cases "repeat_count (group_at ?s2 gi) > 0 \<and> k + 1 \<ge> repeat_count (group_at ?s2 gi)")
        case True
        then show ?thesis using Suc.prems \<open>k < repeat_count (group_at s gi) \<or> repeat_count (group_at s gi) = 0\<close> False sh2
          by (auto simp: case_prod_beta Let_def)
      next
        case nb: False
        have "group_loop fuel env gi (k + 1) ?s2 = Some s'"
          using Suc.prems \<open>k < repeat_count (group_at s gi) \<or> repeat_count (group_at s gi) = 0\<close> False nb
          by (simp add: case_prod_beta Let_def)
        then show ?thesis using Suc.IH sh2 by simp
      qed
    qed
  qed
qed

lemma begin_end_fields [simp]:
  "checks (begin_group gi s) = checks s"
  "shape (begin_group gi s) = shape s"
  "trace (begin_group gi s) = trace s @ [Group_started (grp_id (group_at s gi))]"
  "checks (end_group gi s) = checks s"
  "shape (end_group gi s) = shape s"
  "trace (end_group gi s) = trace s @ [Group_completed (grp_id (group_at s gi))]"
  by (simp_all add: begin_group_def end_group_def)

lemma run_groups_head:
  assumes "grp_enabled (group_at s gi)"
    and "\<not> stop_set env (checks s)"
    and "execute_group fuel env gi (begin_group gi (snd (is_set env s))) = Some s2"
  shows "run_groups fuel env (gi # gis) s =
           (if stop_set env (checks s2) then Some (snd (is_set env (end_group gi s2)))
            else run_groups fuel env gis (after_group env gi (snd (is_set env (end_group gi s2)))))"
  using assms by (simp add: case_prod_beta)

subsubsection \<open>The passes of a group and the pause after it\<close>



end
